theory Spec2Isabelle
  imports Main "HOL-Library.AList" "HOL-Library.Multiset"
begin

section \<open>Strings and the slug helpers of db.js\<close>

text \<open>
  A JavaScript string is a sequence of 16-bit code units; a code unit is modelled by its
  number. The units below 128 are the ASCII characters. \<open>units\<close> turns a string literal
  of the theory into such a sequence. Titles, slugs and agent names, which the code
  lowercases or builds from lowercased text, are such sequences. The strings that the code
  only stores, compares or splits at commas (identifiers, statuses, categories and the
  like) are written as strings of the theory.
\<close>

type_synonym jsstring = "nat list"

definition units :: "string \<Rightarrow> jsstring" where
  "units s = map of_char s"

abbreviation hyphen :: nat where
  "hyphen \<equiv> 45"

text \<open>
  \<open>String.prototype.toLowerCase\<close> is the runtime's. What it does to ASCII is fixed:
  \<open>A\<close>..\<open>Z\<close> (65..90) move up by 32 and every other ASCII unit stays. Two units
  beyond ASCII have a lowercase form with an ASCII letter in it: \<open>U+0130\<close> (capital I
  with dot, 304) becomes \<open>i\<close> followed by the combining dot \<open>U+0307\<close>, and \<open>U+212A\<close>
  (the Kelvin sign, 8490) becomes \<open>k\<close>. The lowercase form of every other unit comes
  from the Unicode tables of the runtime; it can depend on the neighbours of the unit
  (final sigma, surrogate pairs) and on the Unicode version, and it never contains an
  ASCII unit. A value of the type \<open>unicode_lower\<close> is such a table: it gives, for a
  string and a position in it, the units that replace the unit at that position.
\<close>

typedef unicode_lower =
  "{f :: jsstring \<Rightarrow> nat \<Rightarrow> jsstring. \<forall>s i. \<forall>v \<in> set (f s i). 128 \<le> v}"
  by (rule exI [of _ "\<lambda>s i. []"]) simp

setup_lifting type_definition_unicode_lower

definition lowerAt :: "unicode_lower \<Rightarrow> jsstring \<Rightarrow> nat \<Rightarrow> jsstring" where
  "lowerAt tbl s i =
     (let u = s ! i in
      if 65 \<le> u \<and> u \<le> 90 then [u + 32]
      else if u < 128 then [u]
      else if u = 304 then [105, 775]
      else if u = 8490 then [107]
      else Rep_unicode_lower tbl s i)"

definition toLowerCase :: "unicode_lower \<Rightarrow> jsstring \<Rightarrow> jsstring" where
  "toLowerCase tbl s = concat (map (lowerAt tbl s) [0..<length s])"

text \<open>The character class \<open>[a-z0-9]\<close> of the regular expressions in \<open>slugify\<close>.\<close>

definition isSlugChar :: "nat \<Rightarrow> bool" where
  "isSlugChar u = ((97 \<le> u \<and> u \<le> 122) \<or> (48 \<le> u \<and> u \<le> 57))"

text \<open>
  \<open>.replace(/[^a-z0-9]+/g, '-')\<close>: every maximal run of units outside the class
  becomes one hyphen.
\<close>

function replaceRuns :: "jsstring \<Rightarrow> jsstring" where
  "replaceRuns [] = []"
| "replaceRuns (c # cs) =
     (if isSlugChar c then c # replaceRuns cs
      else hyphen # replaceRuns (dropWhile (\<lambda>d. \<not> isSlugChar d) cs))"
  by pat_completeness auto
termination
  by (relation "measure length") (auto simp: length_dropWhile_le less_Suc_eq_le)

text \<open>
  \<open>.replace(/^-|-$/g, '')\<close>: a hyphen at the very start is removed, then a hyphen at the
  very end of what is left.
\<close>

definition stripEdgeHyphens :: "jsstring \<Rightarrow> jsstring" where
  "stripEdgeHyphens s =
     (let s1 = (case s of [] \<Rightarrow> [] | c # cs \<Rightarrow> if c = hyphen then cs else c # cs)
      in if s1 \<noteq> [] \<and> last s1 = hyphen then butlast s1 else s1)"

definition slugify :: "unicode_lower \<Rightarrow> jsstring \<Rightarrow> jsstring" where
  "slugify tbl text' = take 50 (stripEdgeHyphens (replaceRuns (toLowerCase tbl text')))"

text \<open>
  The template literal \<open>`${baseSlug}-${counter}`\<close> renders the counter in decimal, with
  the digits \<open>0\<close>..\<open>9\<close> (48..57). The counter is a JavaScript number; the model uses
  \<^typ>\<open>nat\<close>, which agrees with it as long as the counter stays below \<open>2^53\<close>.
\<close>

function decimal :: "nat \<Rightarrow> jsstring" where
  "decimal n = (if n < 10 then [48 + n] else decimal (n div 10) @ [48 + n mod 10])"
  by pat_completeness auto
termination
  by (relation "measure id") auto

declare decimal.simps [simp del]

definition suffixed :: "jsstring \<Rightarrow> nat \<Rightarrow> jsstring" where
  "suffixed baseSlug counter = baseSlug @ hyphen # decimal counter"

section \<open>The document and its five collections\<close>

text \<open>
  Timestamps are the milliseconds behind \<open>new Date().toISOString()\<close>; the ISO string and
  \<open>new Date(string)\<close> convert back and forth without loss, so the model keeps the number.
  Identifiers are the strings \<open>uuidv4()\<close> returns. They are never array indices, so
  \<open>Object.values\<close> and \<open>Object.keys\<close> enumerate a collection in insertion order: a
  collection is an association list in that order, assignment to a key is
  \<^const>\<open>AList.update\<close> (an existing key keeps its place) and \<open>delete\<close> is
  \<^const>\<open>AList.delete\<close>.
\<close>

record agent =
  ag_id :: string
  ag_name :: jsstring
  ag_display_name :: string
  ag_bio :: "string option"
  ag_email :: "string option"
  ag_avatar_url :: "string option"
  ag_skills :: "string list"
  ag_api_key :: string
  ag_created_at :: int
  ag_updated_at :: int

record project =
  pr_id :: string
  pr_slug :: jsstring
  pr_title :: jsstring
  pr_description :: "string option"
  pr_category :: string
  pr_status :: string
  pr_skills_needed :: "string list"
  pr_max_collaborators :: "int option"
  pr_creator_id :: string
  pr_created_at :: int
  pr_updated_at :: int

record collaboration =
  co_id :: string
  co_project_id :: string
  co_agent_id :: string
  co_role :: string
  co_pitch :: "string option"
  co_status :: string
  co_joined_at :: int

record update_entry =
  up_id :: string
  up_project_id :: string
  up_agent_id :: string
  up_content :: string
  up_created_at :: int

record comment_entry =
  cm_id :: string
  cm_project_id :: string
  cm_agent_id :: string
  cm_content :: string
  cm_created_at :: int

record document =
  db_agents :: "(string \<times> agent) list"
  db_projects :: "(string \<times> project) list"
  db_collaborations :: "(string \<times> collaboration) list"
  db_updates :: "(string \<times> update_entry) list"
  db_comments :: "(string \<times> comment_entry) list"

definition empty_document :: document where
  "empty_document =
     \<lparr>db_agents = [], db_projects = [], db_collaborations = [], db_updates = [], db_comments = []\<rparr>"

text \<open>
  The store is the in-memory document \<open>db\<close> and the file \<open>db.json\<close>. The serialiser
  \<open>JSON.stringify\<close> and the parser \<open>JSON.parse\<close> belong to the runtime; they are
  parameters \<open>js\<close> and \<open>parse\<close> of the model. \<open>parse\<close> returns \<open>None\<close> where
  \<open>JSON.parse\<close> throws. \<open>fs.writeFileSync\<close> is taken to succeed.
\<close>

record 'd store =
  db :: document
  disk :: "'d option"

definition save :: "(document \<Rightarrow> 'd) \<Rightarrow> 'd store \<Rightarrow> 'd store" where
  "save js st = st\<lparr>disk := Some (js (db st))\<rparr>"

text \<open>
  Start of the process: an absent file, or one that does not parse, leaves the fresh
  empty document in place.
\<close>

definition load :: "('d \<Rightarrow> document option) \<Rightarrow> 'd option \<Rightarrow> 'd store" where
  "load parse file =
     (case file of
        None \<Rightarrow> \<lparr>db = empty_document, disk = None\<rparr>
      | Some text' \<Rightarrow>
          (case parse text' of
             Some d \<Rightarrow> \<lparr>db = d, disk = file\<rparr>
           | None \<Rightarrow> \<lparr>db = empty_document, disk = file\<rparr>))"

definition Object_values :: "(string \<times> 'r) list \<Rightarrow> 'r list" where
  "Object_values al = map snd al"

definition Object_keys :: "(string \<times> 'r) list \<Rightarrow> string list" where
  "Object_keys al = map fst al"

text \<open>\<open>x || null\<close> and \<open>x || d\<close> on an optional string: the empty string is falsy.\<close>

definition or_null :: "string option \<Rightarrow> string option" where
  "or_null x = (case x of None \<Rightarrow> None | Some s \<Rightarrow> if s = [] then None else Some s)"

definition or_default :: "string option \<Rightarrow> string \<Rightarrow> string" where
  "or_default x d = (case x of None \<Rightarrow> d | Some s \<Rightarrow> if s = [] then d else s)"

text \<open>\<open>n || null\<close> on an optional number: zero is falsy.\<close>

definition num_or_null :: "int option \<Rightarrow> int option" where
  "num_or_null x = (case x of None \<Rightarrow> None | Some n \<Rightarrow> if n = 0 then None else Some n)"

text \<open>\<open>xs || []\<close> on an optional array: every array is truthy.\<close>

definition or_empty :: "'a list option \<Rightarrow> 'a list" where
  "or_empty x = (case x of None \<Rightarrow> [] | Some xs \<Rightarrow> xs)"

subsection \<open>uniqueSlug\<close>

function uniqueSlug_loop :: "project list \<Rightarrow> jsstring \<Rightarrow> jsstring \<Rightarrow> nat \<Rightarrow> jsstring" where
  "uniqueSlug_loop ps baseSlug slug counter =
     (if list_ex (\<lambda>p. pr_slug p = slug) ps
      then uniqueSlug_loop ps baseSlug (suffixed baseSlug counter) (counter + 1)
      else slug)"
  by pat_completeness auto

definition uniqueSlug :: "'d store \<Rightarrow> jsstring \<Rightarrow> jsstring" where
  "uniqueSlug st baseSlug =
     uniqueSlug_loop (Object_values (db_projects (db st))) baseSlug baseSlug 1"

subsection \<open>Agent operations\<close>

text \<open>
  The environment supplies what the code draws from outside: \<open>uid\<close> is the result of
  \<open>uuidv4()\<close>, \<open>hex\<close> the 64 hexadecimal digits of \<open>crypto.randomBytes(32)\<close>, and
  each \<open>new Date()\<close> is one clock reading. The input records carry the properties of
  \<open>data\<close> that the code reads; an optional property is \<open>None\<close> when it is
  \<open>undefined\<close> or \<open>null\<close>.
\<close>

definition generateApiKey :: "string \<Rightarrow> string" where
  "generateApiKey hex = ''th_'' @ hex"

record agent_data =
  ad_name :: jsstring
  ad_displayName :: string
  ad_bio :: "string option"
  ad_email :: "string option"
  ad_avatarUrl :: "string option"
  ad_skills :: "string list option"

definition agents_create ::
  "(document \<Rightarrow> 'd) \<Rightarrow> string \<Rightarrow> string \<Rightarrow> int \<Rightarrow> int \<Rightarrow> agent_data \<Rightarrow> 'd store
     \<Rightarrow> 'd store \<times> agent" where
  "agents_create js uid hex t1 t2 data st =
     (let apiKey = generateApiKey hex;
          agent = \<lparr>ag_id = uid,
                   ag_name = ad_name data,
                   ag_display_name = ad_displayName data,
                   ag_bio = or_null (ad_bio data),
                   ag_email = or_null (ad_email data),
                   ag_avatar_url = or_null (ad_avatarUrl data),
                   ag_skills = or_empty (ad_skills data),
                   ag_api_key = apiKey,
                   ag_created_at = t1,
                   ag_updated_at = t2\<rparr>;
          st1 = st\<lparr>db := (db st)\<lparr>db_agents := AList.update uid agent (db_agents (db st))\<rparr>\<rparr>
      in (save js st1, agent))"

definition agents_findById :: "'d store \<Rightarrow> string \<Rightarrow> agent option" where
  "agents_findById st i = map_of (db_agents (db st)) i"

definition agents_nameExists :: "unicode_lower \<Rightarrow> 'd store \<Rightarrow> jsstring \<Rightarrow> bool" where
  "agents_nameExists tbl st name =
     list_ex (\<lambda>a. toLowerCase tbl (ag_name a) = toLowerCase tbl name) (Object_values (db_agents (db st)))"

text \<open>
  \<open>Object.assign(record, data, ...)\<close> copies the properties that \<open>data\<close> has. A patch
  lists, for every field of the record, whether \<open>data\<close> has it (\<open>Some v\<close>) or not.
\<close>

definition assign :: "'a option \<Rightarrow> 'a \<Rightarrow> 'a" where
  "assign new old = (case new of None \<Rightarrow> old | Some v \<Rightarrow> v)"

record agent_patch =
  ap_id :: "string option"
  ap_name :: "jsstring option"
  ap_display_name :: "string option"
  ap_bio :: "string option option"
  ap_email :: "string option option"
  ap_avatar_url :: "string option option"
  ap_skills :: "string list option"
  ap_api_key :: "string option"
  ap_created_at :: "int option"
  ap_updated_at :: "int option"

definition assign_agent :: "agent \<Rightarrow> agent_patch \<Rightarrow> agent" where
  "assign_agent a data =
     \<lparr>ag_id = assign (ap_id data) (ag_id a),
      ag_name = assign (ap_name data) (ag_name a),
      ag_display_name = assign (ap_display_name data) (ag_display_name a),
      ag_bio = assign (ap_bio data) (ag_bio a),
      ag_email = assign (ap_email data) (ag_email a),
      ag_avatar_url = assign (ap_avatar_url data) (ag_avatar_url a),
      ag_skills = assign (ap_skills data) (ag_skills a),
      ag_api_key = assign (ap_api_key data) (ag_api_key a),
      ag_created_at = assign (ap_created_at data) (ag_created_at a),
      ag_updated_at = assign (ap_updated_at data) (ag_updated_at a)\<rparr>"

definition agents_update ::
  "(document \<Rightarrow> 'd) \<Rightarrow> int \<Rightarrow> string \<Rightarrow> agent_patch \<Rightarrow> 'd store \<Rightarrow> 'd store \<times> agent option" where
  "agents_update js t i data st =
     (case map_of (db_agents (db st)) i of
        None \<Rightarrow> (st, None)
      | Some agent \<Rightarrow>
          (let agent' = (assign_agent agent data)\<lparr>ag_updated_at := t\<rparr>;
               st1 = st\<lparr>db := (db st)\<lparr>db_agents := AList.update i agent' (db_agents (db st))\<rparr>\<rparr>
           in (save js st1, Some agent')))"

subsection \<open>Project operations\<close>

record project_data =
  pd_title :: jsstring
  pd_description :: "string option"
  pd_category :: "string option"
  pd_skillsNeeded :: "string list option"
  pd_maxCollaborators :: "int option"
  pd_creatorId :: string

definition projects_create ::
  "unicode_lower \<Rightarrow> (document \<Rightarrow> 'd) \<Rightarrow> string \<Rightarrow> int \<Rightarrow> int \<Rightarrow> project_data \<Rightarrow> 'd store
     \<Rightarrow> 'd store \<times> project" where
  "projects_create tbl js uid t1 t2 data st =
     (let slug = uniqueSlug st (slugify tbl (pd_title data));
          project = \<lparr>pr_id = uid,
                     pr_slug = slug,
                     pr_title = pd_title data,
                     pr_description = or_null (pd_description data),
                     pr_category = or_default (pd_category data) ''other'',
                     pr_status = ''seeking'',
                     pr_skills_needed = or_empty (pd_skillsNeeded data),
                     pr_max_collaborators = num_or_null (pd_maxCollaborators data),
                     pr_creator_id = pd_creatorId data,
                     pr_created_at = t1,
                     pr_updated_at = t2\<rparr>;
          st1 = st\<lparr>db := (db st)\<lparr>db_projects := AList.update uid project (db_projects (db st))\<rparr>\<rparr>
      in (save js st1, project))"

definition projects_findBySlug :: "'d store \<Rightarrow> jsstring \<Rightarrow> project option" where
  "projects_findBySlug st slug = find (\<lambda>p. pr_slug p = slug) (Object_values (db_projects (db st)))"

definition projects_findById :: "'d store \<Rightarrow> string \<Rightarrow> project option" where
  "projects_findById st i = map_of (db_projects (db st)) i"

text \<open>
  \<open>Array.prototype.sort\<close> with a comparison function is stable: \<open>a\<close> stays in front
  of \<open>b\<close> unless the comparison is positive. Insertion from the right does the same.
\<close>

fun insertBy :: "('a \<Rightarrow> 'a \<Rightarrow> int) \<Rightarrow> 'a \<Rightarrow> 'a list \<Rightarrow> 'a list" where
  "insertBy cmp x [] = [x]"
| "insertBy cmp x (y # ys) = (if cmp x y \<le> 0 then x # y # ys else y # insertBy cmp x ys)"

definition sortBy :: "('a \<Rightarrow> 'a \<Rightarrow> int) \<Rightarrow> 'a list \<Rightarrow> 'a list" where
  "sortBy cmp xs = foldr (insertBy cmp) xs []"

text \<open>
  \<open>s.split(',')\<close>: the pieces between the commas; the empty string has one empty piece,
  so the list of pieces is never empty.
\<close>

fun split_comma :: "string \<Rightarrow> string list" where
  "split_comma [] = [[]]"
| "split_comma (c # cs) =
     (let rest = split_comma cs
      in if c = CHR '','' then [] # rest else (c # hd rest) # tl rest)"

text \<open>
  \<open>xs.slice(0, n)\<close> for an integer \<open>n\<close>: a negative end counts from the end of the
  array.
\<close>

definition slice0 :: "'a list \<Rightarrow> int \<Rightarrow> 'a list" where
  "slice0 xs n = (if n < 0 then take (nat (int (length xs) + n)) xs else take (nat n) xs)"

text \<open>
  The filters of \<open>findAll\<close>. \<open>limit\<close> is an integer number of magnitude below \<open>10^21\<close>,
  on which \<open>parseInt\<close> is the identity (the HTTP layer passes
  \<open>Math.min(parseInt(limit) || 20, 100)\<close>).
\<close>

record filters =
  f_category :: "string option"
  f_status :: "string option"
  f_skill :: "string option"
  f_limit :: "int option"

definition no_filters :: filters where
  "no_filters = \<lparr>f_category = None, f_status = None, f_skill = None, f_limit = None\<rparr>"

definition truthy :: "string option \<Rightarrow> bool" where
  "truthy x = (case x of None \<Rightarrow> False | Some s \<Rightarrow> s \<noteq> [])"

definition parseInt :: "int \<Rightarrow> int" where
  "parseInt n = n"

definition projects_findAll :: "filters \<Rightarrow> 'd store \<Rightarrow> project list" where
  "projects_findAll fs st =
     (let results = Object_values (db_projects (db st));
          results = (if truthy (f_category fs)
                     then filter (\<lambda>p. Some (pr_category p) = f_category fs) results
                     else results);
          results = (if truthy (f_status fs)
                     then (let statuses = split_comma (the (f_status fs))
                           in filter (\<lambda>p. pr_status p \<in> set statuses) results)
                     else filter (\<lambda>p. pr_status p \<in> set [''seeking'', ''in-progress'']) results);
          results = (if truthy (f_skill fs)
                     then filter (\<lambda>p. the (f_skill fs) \<in> set (pr_skills_needed p)) results
                     else results);
          results = sortBy (\<lambda>a b. pr_created_at b - pr_created_at a) results;
          results = (case f_limit fs of
                       None \<Rightarrow> results
                     | Some n \<Rightarrow> if n \<noteq> 0 then slice0 results (parseInt n) else results)
      in results)"

definition projects_findByCreator :: "'d store \<Rightarrow> string \<Rightarrow> project list" where
  "projects_findByCreator st creatorId =
     filter (\<lambda>p. pr_creator_id p = creatorId) (Object_values (db_projects (db st)))"

record project_patch =
  pp_id :: "string option"
  pp_slug :: "jsstring option"
  pp_title :: "jsstring option"
  pp_description :: "string option option"
  pp_category :: "string option"
  pp_status :: "string option"
  pp_skills_needed :: "string list option"
  pp_max_collaborators :: "int option option"
  pp_creator_id :: "string option"
  pp_created_at :: "int option"
  pp_updated_at :: "int option"

definition assign_project :: "project \<Rightarrow> project_patch \<Rightarrow> project" where
  "assign_project p data =
     \<lparr>pr_id = assign (pp_id data) (pr_id p),
      pr_slug = assign (pp_slug data) (pr_slug p),
      pr_title = assign (pp_title data) (pr_title p),
      pr_description = assign (pp_description data) (pr_description p),
      pr_category = assign (pp_category data) (pr_category p),
      pr_status = assign (pp_status data) (pr_status p),
      pr_skills_needed = assign (pp_skills_needed data) (pr_skills_needed p),
      pr_max_collaborators = assign (pp_max_collaborators data) (pr_max_collaborators p),
      pr_creator_id = assign (pp_creator_id data) (pr_creator_id p),
      pr_created_at = assign (pp_created_at data) (pr_created_at p),
      pr_updated_at = assign (pp_updated_at data) (pr_updated_at p)\<rparr>"

definition projects_update ::
  "(document \<Rightarrow> 'd) \<Rightarrow> int \<Rightarrow> string \<Rightarrow> project_patch \<Rightarrow> 'd store
     \<Rightarrow> 'd store \<times> project option" where
  "projects_update js t i data st =
     (case map_of (db_projects (db st)) i of
        None \<Rightarrow> (st, None)
      | Some project \<Rightarrow>
          (let project' = (assign_project project data)\<lparr>pr_updated_at := t\<rparr>;
               st1 = st\<lparr>db := (db st)\<lparr>db_projects := AList.update i project' (db_projects (db st))\<rparr>\<rparr>
           in (save js st1, Some project')))"

text \<open>
  The cascade of \<open>delete\<close>: \<open>Object.keys(c).forEach(k => { if (c[k].project_id === id)
  delete c[k]; })\<close>. The keys are listed once, before the loop; each step looks its key
  up in the collection as the earlier steps left it. A key that is no longer there
  cannot occur (a step removes only its own key) and is skipped in the model.
\<close>

definition cascade :: "('r \<Rightarrow> string) \<Rightarrow> string \<Rightarrow> (string \<times> 'r) list \<Rightarrow> (string \<times> 'r) list" where
  "cascade project_id i c =
     fold (\<lambda>k c'. case map_of c' k of
                     None \<Rightarrow> c'
                   | Some r \<Rightarrow> if project_id r = i then AList.delete k c' else c')
          (Object_keys c) c"

definition projects_delete :: "(document \<Rightarrow> 'd) \<Rightarrow> string \<Rightarrow> 'd store \<Rightarrow> 'd store" where
  "projects_delete js i st =
     (let d = db st;
          d = d\<lparr>db_projects := AList.delete i (db_projects d)\<rparr>;
          d = d\<lparr>db_collaborations := cascade co_project_id i (db_collaborations d)\<rparr>;
          d = d\<lparr>db_updates := cascade up_project_id i (db_updates d)\<rparr>;
          d = d\<lparr>db_comments := cascade cm_project_id i (db_comments d)\<rparr>
      in save js (st\<lparr>db := d\<rparr>))"

subsection \<open>Collaboration operations\<close>

record collaboration_data =
  cd_projectId :: string
  cd_agentId :: string
  cd_role :: "string option"
  cd_pitch :: "string option"
  cd_status :: "string option"

definition collaborations_create ::
  "(document \<Rightarrow> 'd) \<Rightarrow> string \<Rightarrow> int \<Rightarrow> collaboration_data \<Rightarrow> 'd store
     \<Rightarrow> 'd store \<times> collaboration" where
  "collaborations_create js uid t data st =
     (let collab = \<lparr>co_id = uid,
                    co_project_id = cd_projectId data,
                    co_agent_id = cd_agentId data,
                    co_role = or_default (cd_role data) ''collaborator'',
                    co_pitch = or_null (cd_pitch data),
                    co_status = or_default (cd_status data) ''pending'',
                    co_joined_at = t\<rparr>;
          st1 = st\<lparr>db := (db st)\<lparr>db_collaborations :=
                   AList.update uid collab (db_collaborations (db st))\<rparr>\<rparr>
      in (save js st1, collab))"

definition collaborations_findByProjectAndAgent ::
  "'d store \<Rightarrow> string \<Rightarrow> string \<Rightarrow> collaboration option" where
  "collaborations_findByProjectAndAgent st projectId agentId =
     find (\<lambda>c. co_project_id c = projectId \<and> co_agent_id c = agentId)
       (Object_values (db_collaborations (db st)))"

definition collaborations_findByProject :: "'d store \<Rightarrow> string \<Rightarrow> collaboration list" where
  "collaborations_findByProject st projectId =
     filter (\<lambda>c. co_project_id c = projectId) (Object_values (db_collaborations (db st)))"

record collaboration_patch =
  cp_id :: "string option"
  cp_project_id :: "string option"
  cp_agent_id :: "string option"
  cp_role :: "string option"
  cp_pitch :: "string option option"
  cp_status :: "string option"
  cp_joined_at :: "int option"

definition assign_collaboration :: "collaboration \<Rightarrow> collaboration_patch \<Rightarrow> collaboration" where
  "assign_collaboration c data =
     \<lparr>co_id = assign (cp_id data) (co_id c),
      co_project_id = assign (cp_project_id data) (co_project_id c),
      co_agent_id = assign (cp_agent_id data) (co_agent_id c),
      co_role = assign (cp_role data) (co_role c),
      co_pitch = assign (cp_pitch data) (co_pitch c),
      co_status = assign (cp_status data) (co_status c),
      co_joined_at = assign (cp_joined_at data) (co_joined_at c)\<rparr>"

definition collaborations_update ::
  "(document \<Rightarrow> 'd) \<Rightarrow> string \<Rightarrow> collaboration_patch \<Rightarrow> 'd store
     \<Rightarrow> 'd store \<times> collaboration option" where
  "collaborations_update js i data st =
     (case map_of (db_collaborations (db st)) i of
        None \<Rightarrow> (st, None)
      | Some collab \<Rightarrow>
          (let collab' = assign_collaboration collab data;
               st1 = st\<lparr>db := (db st)\<lparr>db_collaborations :=
                        AList.update i collab' (db_collaborations (db st))\<rparr>\<rparr>
           in (save js st1, Some collab')))"

definition collaborations_delete ::
  "(document \<Rightarrow> 'd) \<Rightarrow> string \<Rightarrow> string \<Rightarrow> 'd store \<Rightarrow> 'd store" where
  "collaborations_delete js projectId agentId st =
     (case collaborations_findByProjectAndAgent st projectId agentId of
        None \<Rightarrow> st
      | Some collab \<Rightarrow>
          save js (st\<lparr>db := (db st)\<lparr>db_collaborations :=
                     AList.delete (co_id collab) (db_collaborations (db st))\<rparr>\<rparr>))"

subsection \<open>Update and comment operations\<close>

record entry_data =
  ed_projectId :: string
  ed_agentId :: string
  ed_content :: string

definition updates_create ::
  "(document \<Rightarrow> 'd) \<Rightarrow> string \<Rightarrow> int \<Rightarrow> entry_data \<Rightarrow> 'd store \<Rightarrow> 'd store \<times> update_entry" where
  "updates_create js uid t data st =
     (let update = \<lparr>up_id = uid,
                    up_project_id = ed_projectId data,
                    up_agent_id = ed_agentId data,
                    up_content = ed_content data,
                    up_created_at = t\<rparr>;
          st1 = st\<lparr>db := (db st)\<lparr>db_updates := AList.update uid update (db_updates (db st))\<rparr>\<rparr>
      in (save js st1, update))"

definition updates_findByProject :: "'d store \<Rightarrow> string \<Rightarrow> update_entry list" where
  "updates_findByProject st projectId =
     sortBy (\<lambda>a b. up_created_at b - up_created_at a)
       (filter (\<lambda>u. up_project_id u = projectId) (Object_values (db_updates (db st))))"

definition comments_create ::
  "(document \<Rightarrow> 'd) \<Rightarrow> string \<Rightarrow> int \<Rightarrow> entry_data \<Rightarrow> 'd store \<Rightarrow> 'd store \<times> comment_entry" where
  "comments_create js uid t data st =
     (let comment = \<lparr>cm_id = uid,
                     cm_project_id = ed_projectId data,
                     cm_agent_id = ed_agentId data,
                     cm_content = ed_content data,
                     cm_created_at = t\<rparr>;
          st1 = st\<lparr>db := (db st)\<lparr>db_comments := AList.update uid comment (db_comments (db st))\<rparr>\<rparr>
      in (save js st1, comment))"

definition comments_findByProject :: "'d store \<Rightarrow> string \<Rightarrow> comment_entry list" where
  "comments_findByProject st projectId =
     sortBy (\<lambda>a b. cm_created_at a - cm_created_at b)
       (filter (\<lambda>c. cm_project_id c = projectId) (Object_values (db_comments (db st))))"

subsection \<open>Sequences of store operations\<close>

text \<open>
  One constructor for every exported operation that changes the store, with the
  arguments of the call and what the environment supplies to it.
\<close>

datatype store_op =
    AgentsCreate string string int int agent_data
  | AgentsUpdate int string agent_patch
  | ProjectsCreate string int int project_data
  | ProjectsUpdate int string project_patch
  | ProjectsDelete string
  | CollaborationsCreate string int collaboration_data
  | CollaborationsUpdate string collaboration_patch
  | CollaborationsDelete string string
  | UpdatesCreate string int entry_data
  | CommentsCreate string int entry_data

fun apply_op :: "unicode_lower \<Rightarrow> (document \<Rightarrow> 'd) \<Rightarrow> store_op \<Rightarrow> 'd store \<Rightarrow> 'd store" where
  "apply_op tbl js (AgentsCreate uid hex t1 t2 data) st = fst (agents_create js uid hex t1 t2 data st)"
| "apply_op tbl js (AgentsUpdate t i data) st = fst (agents_update js t i data st)"
| "apply_op tbl js (ProjectsCreate uid t1 t2 data) st = fst (projects_create tbl js uid t1 t2 data st)"
| "apply_op tbl js (ProjectsUpdate t i data) st = fst (projects_update js t i data st)"
| "apply_op tbl js (ProjectsDelete i) st = projects_delete js i st"
| "apply_op tbl js (CollaborationsCreate uid t data) st = fst (collaborations_create js uid t data st)"
| "apply_op tbl js (CollaborationsUpdate i data) st = fst (collaborations_update js i data st)"
| "apply_op tbl js (CollaborationsDelete projectId agentId) st =
     collaborations_delete js projectId agentId st"
| "apply_op tbl js (UpdatesCreate uid t data) st = fst (updates_create js uid t data st)"
| "apply_op tbl js (CommentsCreate uid t data) st = fst (comments_create js uid t data st)"

definition run :: "unicode_lower \<Rightarrow> (document \<Rightarrow> 'd) \<Rightarrow> store_op list \<Rightarrow> 'd store \<Rightarrow> 'd store" where
  "run tbl js ops st = fold (apply_op tbl js) ops st"

definition initial_store :: "'d store" where
  "initial_store = \<lparr>db = empty_document, disk = None\<rparr>"

text \<open>Whether an operation is a \<open>projects.update\<close> whose \<open>data\<close> has a \<open>slug\<close>.\<close>

fun writes_slug :: "store_op \<Rightarrow> bool" where
  "writes_slug (ProjectsUpdate t i data) = (pp_slug data \<noteq> None)"
| "writes_slug _ = False"

definition slugs :: "'d store \<Rightarrow> jsstring list" where
  "slugs st = map pr_slug (Object_values (db_projects (db st)))"

subsection \<open>Example inputs\<close>

text \<open>A serialiser that keeps the document as it is; its parser is \<^const>\<open>Some\<close>.\<close>

definition as_is :: "document \<Rightarrow> document" where
  "as_is d = d"

text \<open>
  A table for the examples: the capital letters \<open>0xC0\<close>..\<open>0xDE\<close> of Latin-1 (without
  the multiplication sign \<open>0xD7\<close>) move up by 32, every other unit beyond ASCII stays.
\<close>

lift_definition latin1_lower :: unicode_lower is
  "\<lambda>s i. (let u = s ! i in
      if 192 \<le> u \<and> u \<le> 222 \<and> u \<noteq> 215 then [u + 32]
      else if 128 \<le> u then [u] else [])"
  by (auto simp: Let_def split: if_splits)

definition titled :: "string \<Rightarrow> project_data" where
  "titled t =
     \<lparr>pd_title = units t, pd_description = None, pd_category = None, pd_skillsNeeded = None,
      pd_maxCollaborators = None, pd_creatorId = ''ada''\<rparr>"

text \<open>A title that is the Kelvin sign \<open>U+212A\<close> alone.\<close>

definition kelvin :: project_data where
  "kelvin = (titled [])\<lparr>pd_title := [8490]\<rparr>"

definition no_patch :: project_patch where
  "no_patch =
     \<lparr>pp_id = None, pp_slug = None, pp_title = None, pp_description = None,
      pp_category = None, pp_status = None, pp_skills_needed = None,
      pp_max_collaborators = None, pp_creator_id = None, pp_created_at = None,
      pp_updated_at = None\<rparr>"

definition ada :: agent_data where
  "ada =
     \<lparr>ad_name = units ''Ada'', ad_displayName = ''Ada L'', ad_bio = None, ad_email = None,
      ad_avatarUrl = None, ad_skills = None\<rparr>"

definition entry :: "string \<Rightarrow> entry_data" where
  "entry projectId = \<lparr>ed_projectId = projectId, ed_agentId = ''a1'', ed_content = ''hello''\<rparr>"

definition joining :: "string \<Rightarrow> collaboration_data" where
  "joining projectId =
     \<lparr>cd_projectId = projectId, cd_agentId = ''a1'', cd_role = None, cd_pitch = None,
      cd_status = None\<rparr>"

text \<open>One agent, named \<open>Ada\<close>.\<close>

definition one_agent :: "document store" where
  "one_agent = fst (agents_create as_is ''a1'' ''00'' 1 1 ada initial_store)"

text \<open>Two projects, each with one collaboration, one update and one comment.\<close>

definition two_projects :: "document store" where
  "two_projects =
     run latin1_lower as_is
       [AgentsCreate ''a1'' ''00'' 1 1 ada,
        ProjectsCreate ''p1'' 2 2 (titled ''Robot''),
        ProjectsCreate ''p2'' 3 3 (titled ''Kite''),
        CollaborationsCreate ''c1'' 4 (joining ''p1''),
        CollaborationsCreate ''c2'' 5 (joining ''p2''),
        UpdatesCreate ''x1'' 6 (entry ''p1''),
        UpdatesCreate ''x2'' 7 (entry ''p2''),
        CommentsCreate ''m1'' 8 (entry ''p1''),
        CommentsCreate ''m2'' 9 (entry ''p2'')]
       initial_store"

text \<open>
  Three projects created at times 1, 2 and 3; the second is then completed and the
  third abandoned.
\<close>

definition three_projects :: "document store" where
  "three_projects =
     run latin1_lower as_is
       [ProjectsCreate ''p1'' 1 1 (titled ''Robot''),
        ProjectsCreate ''p2'' 2 2 (titled ''Kite''),
        ProjectsCreate ''p3'' 3 3 (titled ''Boat''),
        ProjectsUpdate 4 ''p2'' (no_patch\<lparr>pp_status := Some ''completed''\<rparr>),
        ProjectsUpdate 5 ''p3'' (no_patch\<lparr>pp_status := Some ''abandoned''\<rparr>)]
       initial_store"

text \<open>Three updates and three comments of one project, inserted out of time order.\<close>

definition three_entries :: "document store" where
  "three_entries =
     run latin1_lower as_is
       [UpdatesCreate ''x1'' 10 (entry ''p1''),
        UpdatesCreate ''x2'' 30 (entry ''p1''),
        UpdatesCreate ''x3'' 20 (entry ''p1''),
        CommentsCreate ''m1'' 10 (entry ''p1''),
        CommentsCreate ''m2'' 30 (entry ''p1''),
        CommentsCreate ''m3'' 20 (entry ''p1'')]
       initial_store"

text \<open>The inverse of \<open>split(',')\<close>: the pieces with a comma between neighbours.\<close>

fun join_comma :: "string list \<Rightarrow> string" where
  "join_comma [] = []"
| "join_comma [w] = w"
| "join_comma (w # v # ws) = w @ CHR '','' # join_comma (v # ws)"

subsection \<open>The slug as the specification words it\<close>

text \<open>
  The second reading of the slug, written from the words of the specification and not
  from the code: alphanumeric means an ASCII letter or digit; a run of other characters
  collapses to one hyphen (all but its last character vanish, the last becomes the
  hyphen); all hyphens at both ends are trimmed; the first free suffix is the least
  number from 1 on whose suffixed slug no project has.
\<close>

definition is_alnum :: "nat \<Rightarrow> bool" where
  "is_alnum u = ((48 \<le> u \<and> u \<le> 57) \<or> (65 \<le> u \<and> u \<le> 90) \<or> (97 \<le> u \<and> u \<le> 122))"

fun spec_collapse :: "jsstring \<Rightarrow> jsstring" where
  "spec_collapse [] = []"
| "spec_collapse (c # cs) =
     (if is_alnum c then c # spec_collapse cs
      else (case cs of
              [] \<Rightarrow> [hyphen]
            | d # ds \<Rightarrow> if is_alnum d then hyphen # spec_collapse cs else spec_collapse cs))"

function drop_trailing_hyphens :: "jsstring \<Rightarrow> jsstring" where
  "drop_trailing_hyphens s =
     (if s \<noteq> [] \<and> last s = hyphen then drop_trailing_hyphens (butlast s) else s)"
  by pat_completeness auto
termination
  by (relation "measure length") auto

declare drop_trailing_hyphens.simps [simp del]

definition spec_trim :: "jsstring \<Rightarrow> jsstring" where
  "spec_trim s = drop_trailing_hyphens (dropWhile (\<lambda>c. c = hyphen) s)"

definition spec_base_slug :: "unicode_lower \<Rightarrow> jsstring \<Rightarrow> jsstring" where
  "spec_base_slug tbl title = take 50 (spec_trim (spec_collapse (toLowerCase tbl title)))"

definition spec_first_free :: "jsstring list \<Rightarrow> jsstring \<Rightarrow> jsstring" where
  "spec_first_free taken baseSlug =
     (if baseSlug \<notin> set taken then baseSlug
      else suffixed baseSlug (LEAST k. 1 \<le> k \<and> suffixed baseSlug k \<notin> set taken))"

text \<open>No two hyphens next to each other.\<close>

fun no_double :: "jsstring \<Rightarrow> bool" where
  "no_double (a # b # cs) = (\<not> (a = hyphen \<and> b = hyphen) \<and> no_double (b # cs))"
| "no_double _ = True"

text \<open>Two projects whose titles have no letter and no digit.\<close>

definition punctuation_projects :: "document store" where
  "punctuation_projects =
     run latin1_lower as_is
       [ProjectsCreate ''p1'' 1 1 (titled ''!!!''),
        ProjectsCreate ''p2'' 2 2 (titled ''? ?'')]
       initial_store"

definition robot_project :: "document store" where
  "robot_project =
     run latin1_lower as_is
       [ProjectsCreate ''p1'' 1 1 (titled ''Self-Balancing Robot'')] initial_store"

subsection \<open>Names that differ only in case\<close>

text \<open>
  Written from the words of the specification, not from the code. Agent names are made
  of ASCII characters (the URL-safe ones). Two such names are equal up to case when they
  have the same length and at every position the same character, or the same letter
  once as a capital (65..90) and once as its small form, 32 further up.
\<close>

definition ascii_string :: "jsstring \<Rightarrow> bool" where
  "ascii_string s = list_all (\<lambda>u. u < 128) s"

definition same_letter :: "nat \<Rightarrow> nat \<Rightarrow> bool" where
  "same_letter x y =
     (x = y \<or> (65 \<le> x \<and> x \<le> 90 \<and> y = x + 32) \<or> (65 \<le> y \<and> y \<le> 90 \<and> x = y + 32))"

definition equal_ignoring_case :: "jsstring \<Rightarrow> jsstring \<Rightarrow> bool" where
  "equal_ignoring_case a b = list_all2 same_letter a b"

text \<open>Every collection has one entry per key, as a JavaScript object has.\<close>

definition unique_keys :: "document \<Rightarrow> bool" where
  "unique_keys d =
     (distinct (Object_keys (db_agents d)) \<and> distinct (Object_keys (db_projects d)) \<and>
      distinct (Object_keys (db_collaborations d)) \<and> distinct (Object_keys (db_updates d)) \<and>
      distinct (Object_keys (db_comments d)))"

section \<open>Decimal numerals and the termination of uniqueSlug\<close>

lemma decimal_nonempty: "decimal n \<noteq> []"
  by (subst decimal.simps) simp

lemma decimal_inj: "decimal n = decimal m \<Longrightarrow> n = m"
proof (induction n arbitrary: m rule: decimal.induct)
  case (1 n)
  show ?case
  proof (cases "n < 10")
    case True
    show ?thesis
    proof (cases "m < 10")
      case mT: True
      from 1(2) True mT show ?thesis
        by (simp add: decimal.simps [of n] decimal.simps [of m])
    next
      case mF: False
      from 1(2) True mF have "decimal (m div 10) = []"
        by (simp add: decimal.simps [of n] decimal.simps [of m])
      then show ?thesis by (simp add: decimal_nonempty)
    qed
  next
    case False
    show ?thesis
    proof (cases "m < 10")
      case mT: True
      from 1(2) False mT have "decimal (n div 10) = []"
        by (simp add: decimal.simps [of n] decimal.simps [of m])
      then show ?thesis by (simp add: decimal_nonempty)
    next
      case mF: False
      from 1(2) False mF have e: "decimal (n div 10) = decimal (m div 10)"
        and r: "n mod 10 = m mod 10"
        by (simp_all add: decimal.simps [of n] decimal.simps [of m])
      from 1(1) [OF False e] have q: "n div 10 = m div 10" .
      from q r show ?thesis by (metis div_mult_mod_eq)
    qed
  qed
qed

lemma suffixed_inj: "suffixed b n = suffixed b m \<Longrightarrow> n = m"
  by (simp add: suffixed_def decimal_inj)

lemma finite_taken: "finite {k. suffixed b k \<in> S}" if "finite S"
proof -
  have "inj (suffixed b)" by (rule injI) (rule suffixed_inj)
  then have "finite (suffixed b -` S)" using that by (simp add: finite_vimageI)
  then show ?thesis by (simp add: vimage_def)
qed

termination uniqueSlug_loop
proof (relation "measure (\<lambda>(ps, b, s, c).
    2 * card {k. c \<le> k \<and> suffixed b k \<in> pr_slug ` set ps} + (if s \<in> pr_slug ` set ps then 1 else 0))")
  show "wf (measure (\<lambda>(ps, b, s, c).
    2 * card {k. c \<le> k \<and> suffixed b k \<in> pr_slug ` set ps} + (if s \<in> pr_slug ` set ps then 1 else 0)))"
    by simp
next
  fix ps :: "project list" and baseSlug slug :: jsstring and counter :: nat
  assume "list_ex (\<lambda>p. pr_slug p = slug) ps"
  then have sl: "slug \<in> pr_slug ` set ps" by (auto simp: list_ex_iff)
  let ?S = "pr_slug ` set ps"
  let ?A = "\<lambda>c. {k. c \<le> k \<and> suffixed baseSlug k \<in> ?S}"
  have fin: "finite (?A c)" for c
    by (rule finite_subset [OF _ finite_taken [of ?S baseSlug]]) auto
  have "2 * card (?A (counter + 1)) + (if suffixed baseSlug counter \<in> ?S then 1 else 0)
      < 2 * card (?A counter) + 1"
  proof (cases "suffixed baseSlug counter \<in> ?S")
    case True
    have "?A counter = insert counter (?A (counter + 1))"
      using True by (auto simp: le_Suc_eq)
    moreover have "counter \<notin> ?A (counter + 1)" by simp
    ultimately have "card (?A counter) = Suc (card (?A (counter + 1)))"
      using fin [of "counter + 1"] by simp
    with True show ?thesis by simp
  next
    case False
    have "k \<noteq> counter" if "suffixed baseSlug k \<in> ?S" for k
      using that False by auto
    then have "?A counter = ?A (counter + 1)"
      by (auto simp: Suc_le_eq le_less)
    with False show ?thesis by simp
  qed
  with sl show "((ps, baseSlug, suffixed baseSlug counter, counter + 1), ps, baseSlug, slug, counter)
    \<in> measure (\<lambda>(ps, b, s, c).
    2 * card {k. c \<le> k \<and> suffixed b k \<in> pr_slug ` set ps} + (if s \<in> pr_slug ` set ps then 1 else 0))"
    by simp
qed

declare uniqueSlug_loop.simps [simp del]

section \<open>The suffix loop\<close>

lemma uniqueSlug_loop_fresh: "uniqueSlug_loop ps b s c \<notin> pr_slug ` set ps"
proof (induction ps b s c rule: uniqueSlug_loop.induct)
  case (1 ps baseSlug slug counter)
  show ?case
  proof (cases "list_ex (\<lambda>p. pr_slug p = slug) ps")
    case True
    with 1 show ?thesis by (simp add: uniqueSlug_loop.simps [of ps baseSlug slug counter])
  next
    case False
    then have "slug \<notin> pr_slug ` set ps" by (auto simp: list_ex_iff)
    with False show ?thesis by (simp add: uniqueSlug_loop.simps [of ps baseSlug slug counter])
  qed
qed

lemma uniqueSlug_loop_least:
  "uniqueSlug_loop ps b s c =
     (if s \<in> pr_slug ` set ps
      then suffixed b (LEAST k. c \<le> k \<and> suffixed b k \<notin> pr_slug ` set ps) else s)"
proof (induction ps b s c rule: uniqueSlug_loop.induct)
  case (1 ps baseSlug slug counter)
  let ?S = "pr_slug ` set ps"
  show ?case
  proof (cases "list_ex (\<lambda>p. pr_slug p = slug) ps")
    case False
    then have "slug \<notin> ?S" by (auto simp: list_ex_iff)
    with False show ?thesis by (simp add: uniqueSlug_loop.simps [of ps baseSlug slug counter])
  next
    case True
    then have in_S: "slug \<in> ?S" by (auto simp: list_ex_iff)
    have step: "uniqueSlug_loop ps baseSlug slug counter =
        uniqueSlug_loop ps baseSlug (suffixed baseSlug counter) (counter + 1)"
      using True by (simp add: uniqueSlug_loop.simps [of ps baseSlug slug counter])
    show ?thesis
    proof (cases "suffixed baseSlug counter \<in> ?S")
      case free: False
      have "(LEAST k. counter \<le> k \<and> suffixed baseSlug k \<notin> ?S) = counter"
        by (rule Least_equality) (use free in auto)
      with step 1 [OF True] free in_S show ?thesis by simp
    next
      case taken: True
      have "(\<lambda>k. counter \<le> k \<and> suffixed baseSlug k \<notin> ?S) =
            (\<lambda>k. counter + 1 \<le> k \<and> suffixed baseSlug k \<notin> ?S)"
      proof (rule ext)
        fix k
        have "k \<noteq> counter" if "suffixed baseSlug k \<notin> ?S" using that taken by auto
        then show "(counter \<le> k \<and> suffixed baseSlug k \<notin> ?S) =
            (counter + 1 \<le> k \<and> suffixed baseSlug k \<notin> ?S)"
          by (auto simp: Suc_le_eq le_less)
      qed
      then have "(LEAST k. counter \<le> k \<and> suffixed baseSlug k \<notin> ?S) =
            (LEAST k. counter + 1 \<le> k \<and> suffixed baseSlug k \<notin> ?S)"
        by simp
      with step 1 [OF True] taken in_S show ?thesis by simp
    qed
  qed
qed

lemma free_suffix_exists:
  assumes "finite S"
  shows "\<exists>k\<ge>c. suffixed b k \<notin> S"
proof (rule ccontr)
  assume "\<not> (\<exists>k\<ge>c. suffixed b k \<notin> S)"
  then have "{k. c \<le> k} \<subseteq> {k. suffixed b k \<in> S}" by auto
  then have "finite {k. c \<le> k}" using finite_taken [OF assms, of b] by (rule finite_subset)
  moreover have "{k. c \<le> k} = {c..}" by auto
  moreover have "infinite {c..}" by (rule infinite_Ici)
  ultimately show False by simp
qed

lemma update_values_subset: "snd ` set (AList.update k v al) \<subseteq> insert v (snd ` set al)"
  by (induction al) auto

lemma update_values_distinct:
  "distinct (map (\<lambda>q. f (snd q)) al) \<Longrightarrow> f v \<notin> f ` snd ` set al \<Longrightarrow>
   distinct (map (\<lambda>q. f (snd q)) (AList.update k v al))"
proof (induction al)
  case Nil
  then show ?case by simp
next
  case (Cons p al)
  show ?case
  proof (cases "fst p = k")
    case True
    with Cons.prems show ?thesis by (auto simp: image_iff)
  next
    case False
    have ih: "distinct (map (\<lambda>q. f (snd q)) (AList.update k v al))"
      using Cons by simp
    have "f (snd p) \<notin> f ` snd ` set (AList.update k v al)"
    proof
      assume "f (snd p) \<in> f ` snd ` set (AList.update k v al)"
      then have "f (snd p) \<in> f ` insert v (snd ` set al)"
        using update_values_subset [of k v al] by blast
      with Cons.prems show False by (auto simp: image_iff)
    qed
    with ih False show ?thesis by (simp add: image_image)
  qed
qed

lemma update_values_same:
  "map_of al k = Some r \<Longrightarrow> f v = f r \<Longrightarrow>
   map (\<lambda>q. f (snd q)) (AList.update k v al) = map (\<lambda>q. f (snd q)) al"
  by (induction al) (auto split: if_splits)

lemma delete_values_distinct:
  "distinct (map (\<lambda>q. f (snd q)) al) \<Longrightarrow> distinct (map (\<lambda>q. f (snd q)) (AList.delete k al))"
  unfolding AList.delete_eq by (rule distinct_map_filter)

section \<open>Slug uniqueness\<close>

lemma uniqueSlug_fresh: "uniqueSlug st b \<notin> set (slugs st)"
  using uniqueSlug_loop_fresh [of "Object_values (db_projects (db st))" b b 1]
  by (simp add: uniqueSlug_def slugs_def)

lemma slugs_alt: "slugs st = map (\<lambda>q. pr_slug (snd q)) (db_projects (db st))"
  by (simp add: slugs_def Object_values_def comp_def)

lemma projects_create_distinct:
  assumes "distinct (slugs st)"
  shows "distinct (slugs (fst (projects_create tbl js uid t1 t2 data st)))"
proof -
  let ?p = "snd (projects_create tbl js uid t1 t2 data st)"
  have fresh: "pr_slug ?p \<notin> pr_slug ` snd ` set (db_projects (db st))"
    using uniqueSlug_fresh [of st "slugify tbl (pd_title data)"]
    by (simp add: projects_create_def Let_def slugs_alt image_image)
  have "slugs (fst (projects_create tbl js uid t1 t2 data st)) =
      map (\<lambda>q. pr_slug (snd q)) (AList.update uid ?p (db_projects (db st)))"
    by (simp add: projects_create_def Let_def slugs_alt save_def)
  with update_values_distinct [OF assms [unfolded slugs_alt] fresh] show ?thesis by simp
qed

lemma assign_project_slug: "pr_slug (assign_project p data) = assign (pp_slug data) (pr_slug p)"
  by (simp add: assign_project_def)

lemma projects_update_slugs:
  assumes "pp_slug data = None"
  shows "slugs (fst (projects_update js t i data st)) = slugs st"
proof (cases "map_of (db_projects (db st)) i")
  case None
  then show ?thesis by (simp add: projects_update_def)
next
  case (Some p)
  let ?p' = "(assign_project p data)\<lparr>pr_updated_at := t\<rparr>"
  have "pr_slug ?p' = pr_slug p"
    using assms by (simp add: assign_project_slug assign_def)
  from update_values_same [OF Some this]
  show ?thesis using Some by (simp add: projects_update_def Let_def slugs_alt save_def)
qed

lemma projects_delete_distinct:
  assumes "distinct (slugs st)"
  shows "distinct (slugs (projects_delete js i st))"
proof -
  have "slugs (projects_delete js i st) = map (\<lambda>q. pr_slug (snd q)) (AList.delete i (db_projects (db st)))"
    by (simp add: projects_delete_def Let_def slugs_alt save_def)
  with delete_values_distinct [OF assms [unfolded slugs_alt]] show ?thesis by simp
qed

lemma apply_op_distinct:
  assumes "distinct (slugs st)" and "\<not> writes_slug op"
  shows "distinct (slugs (apply_op tbl js op st))"
proof (cases op)
  case (ProjectsCreate uid t1 t2 data)
  with assms show ?thesis by (simp add: projects_create_distinct)
next
  case (ProjectsUpdate t i data)
  with assms show ?thesis by (simp add: projects_update_slugs)
next
  case (ProjectsDelete i)
  with assms show ?thesis by (simp add: projects_delete_distinct)
next
  case (AgentsCreate uid hex t1 t2 data)
  with assms show ?thesis by (simp add: slugs_alt agents_create_def save_def Let_def)
next
  case (AgentsUpdate t i data)
  with assms show ?thesis
    by (simp add: slugs_alt agents_update_def save_def Let_def split: option.splits)
next
  case (CollaborationsCreate uid t data)
  with assms show ?thesis by (simp add: slugs_alt collaborations_create_def save_def Let_def)
next
  case (CollaborationsUpdate i data)
  with assms show ?thesis
    by (simp add: slugs_alt collaborations_update_def save_def Let_def split: option.splits)
next
  case (CollaborationsDelete projectId agentId)
  with assms show ?thesis
    by (simp add: slugs_alt collaborations_delete_def save_def split: option.splits)
next
  case (UpdatesCreate uid t data)
  with assms show ?thesis by (simp add: slugs_alt updates_create_def save_def Let_def)
next
  case (CommentsCreate uid t data)
  with assms show ?thesis by (simp add: slugs_alt comments_create_def save_def Let_def)
qed

text \<open>
  C1, as the code has it. \<open>projects.update\<close> merges whatever \<open>data\<close> holds into the
  record, so a \<open>data\<close> with a \<open>slug\<close> can copy the slug of another project. Every other
  operation keeps the slugs of the collection pairwise different: from a store whose
  slugs are pairwise different (the empty store is one), every sequence of store
  operations in which no \<open>projects.update\<close> carries a \<open>slug\<close> leads to such a store
  again, also when titles repeat and when \<open>uuidv4\<close> repeats an identifier.
\<close>

theorem slug_unique_invariant:
  "distinct (slugs st) \<Longrightarrow> list_all (\<lambda>op. \<not> writes_slug op) ops \<Longrightarrow>
   distinct (slugs (run tbl js ops st))"
  unfolding run_def
  by (induction ops arbitrary: st) (simp_all add: apply_op_distinct)

theorem slug_unique_invariant_witness:
  "distinct (slugs (run latin1_lower as_is
     [ProjectsCreate ''u1'' 1 1 (titled ''Self-Balancing Robot''),
      ProjectsCreate ''u2'' 2 2 (titled ''Self-Balancing Robot''),
      ProjectsUpdate 3 ''u1'' (no_patch\<lparr>pp_title := Some (units ''Robot'')\<rparr>)]
     (initial_store :: document store)))"
  by (rule slug_unique_invariant)
    (simp_all add: slugs_def initial_store_def empty_document_def Object_values_def no_patch_def)

text \<open>
  The claim as written fails: two projects, then an update of the second with the
  slug of the first.
\<close>

theorem slug_unique_counterexample:
  "\<not> distinct (slugs (run latin1_lower as_is
     [ProjectsCreate ''u1'' 1 1 (titled ''a''),
      ProjectsCreate ''u2'' 2 2 (titled ''b''),
      ProjectsUpdate 3 ''u2'' (no_patch\<lparr>pp_slug := Some (units ''a'')\<rparr>)]
     (initial_store :: document store)))"
  by code_simp

section \<open>Defaults of projects.create\<close>

text \<open>
  C10: when \<open>data.category\<close> is absent or the empty string, the record that
  \<open>projects.create\<close> returns, which is also the record stored under the new
  identifier, has category \<open>other\<close>.
\<close>

theorem projects_create_category_default:
  "pd_category data = None \<or> pd_category data = Some [] \<Longrightarrow>
   pr_category (snd (projects_create tbl js uid t1 t2 data st)) = ''other'' \<and>
   projects_findById (fst (projects_create tbl js uid t1 t2 data st)) uid =
     Some (snd (projects_create tbl js uid t1 t2 data st))"
  by (auto simp: projects_create_def Let_def or_default_def projects_findById_def save_def
      update_conv')

theorem projects_create_category_default_witness:
  "pr_category (snd (projects_create latin1_lower as_is ''u1'' 1 1 (titled ''Robot'')
      (initial_store :: document store))) = ''other'' \<and>
   pr_category (snd (projects_create latin1_lower as_is ''u1'' 1 1
      ((titled ''Robot'')\<lparr>pd_category := Some []\<rparr>) (initial_store :: document store))) = ''other''"
  using projects_create_category_default
      [of "titled ''Robot''" latin1_lower as_is "''u1''" 1 1 "initial_store :: document store"]
    projects_create_category_default
      [of "(titled ''Robot'')\<lparr>pd_category := Some []\<rparr>" latin1_lower as_is "''u1''" 1 1
        "initial_store :: document store"]
  by (simp add: titled_def)

section \<open>Agent names\<close>

lemma update_fresh: "k \<notin> fst ` set al \<Longrightarrow> AList.update k v al = al @ [(k, v)]"
  by (induction al) auto

lemma concat_singletons: "concat (map (\<lambda>i. [g i]) xs) = map g xs"
  by (induction xs) simp_all

lemma toLowerCase_ascii:
  assumes "ascii_string s"
  shows "toLowerCase tbl s = map (\<lambda>u. if 65 \<le> u \<and> u \<le> 90 then u + 32 else u) s"
proof -
  let ?f = "\<lambda>u::nat. if 65 \<le> u \<and> u \<le> 90 then u + 32 else u"
  have "lowerAt tbl s i = [?f (s ! i)]" if "i < length s" for i
  proof -
    from assms that have "s ! i < 128" by (simp add: ascii_string_def list_all_length)
    then show ?thesis by (simp add: lowerAt_def Let_def)
  qed
  then have eq: "map (lowerAt tbl s) [0..<length s] = map (\<lambda>i. [?f (s ! i)]) [0..<length s]"
    by simp
  have "toLowerCase tbl s = map (\<lambda>i. ?f (s ! i)) [0..<length s]"
    by (simp only: toLowerCase_def eq concat_singletons)
  also have "\<dots> = map ?f (map ((!) s) [0..<length s])" by simp
  also have "\<dots> = map ?f s" by (simp only: map_nth)
  finally show ?thesis .
qed

lemma lower_same_letter:
  "((if 65 \<le> x \<and> x \<le> 90 then x + 32 else x) = (if 65 \<le> y \<and> y \<le> 90 then y + 32 else y)) =
   same_letter x y" for x y :: nat
  by (auto simp: same_letter_def)

lemma map_eq_rel: "(map f xs = map f ys) = list_all2 (\<lambda>x y. f x = f y) xs ys"
proof (induction xs arbitrary: ys)
  case Nil
  show ?case by auto
next
  case (Cons x xs)
  then show ?case by (cases ys) auto
qed

lemma lower_equal_ignoring_case:
  assumes "ascii_string a" and "ascii_string b"
  shows "(toLowerCase tbl a = toLowerCase tbl b) = equal_ignoring_case a b"
  by (simp add: toLowerCase_ascii [OF assms(1)] toLowerCase_ascii [OF assms(2)] map_eq_rel
      lower_same_letter equal_ignoring_case_def)

text \<open>
  C8: for ASCII names, \<open>nameExists\<close> is true exactly when some agent's name is equal to
  the given one up to case, as the specification words it. \<open>agents.create\<close> has no
  check and no failure branch: with a fresh identifier it appends the new record to the
  collection and keeps every earlier one, whatever the name is, also when
  \<open>nameExists\<close> holds of that name before the call.
\<close>

theorem agents_create_permissive:
  assumes "uid \<notin> set (Object_keys (db_agents (db st)))"
    and "ascii_string name"
    and "list_all (\<lambda>a. ascii_string (ag_name a)) (Object_values (db_agents (db st)))"
  shows "agents_nameExists tbl st name =
           (\<exists>a \<in> set (Object_values (db_agents (db st))). equal_ignoring_case (ag_name a) name) \<and>
         db_agents (db (fst (agents_create js uid hex t1 t2 data st))) =
           db_agents (db st) @ [(uid, snd (agents_create js uid hex t1 t2 data st))] \<and>
         ag_name (snd (agents_create js uid hex t1 t2 data st)) = ad_name data"
proof -
  have "(toLowerCase tbl (ag_name a) = toLowerCase tbl name) = equal_ignoring_case (ag_name a) name"
    if "a \<in> set (Object_values (db_agents (db st)))" for a
    using that assms(2,3) by (simp add: list_all_iff lower_equal_ignoring_case)
  then have "agents_nameExists tbl st name =
      (\<exists>a \<in> set (Object_values (db_agents (db st))). equal_ignoring_case (ag_name a) name)"
    by (simp add: agents_nameExists_def list_ex_iff)
  with assms(1) show ?thesis
    by (simp add: agents_create_def Let_def save_def Object_keys_def update_fresh)
qed

theorem agents_create_permissive_witness:
  "agents_nameExists latin1_lower one_agent (units ''ADA'') \<and>
   equal_ignoring_case (units ''Ada'') (units ''ADA'') \<and>
   \<not> agents_nameExists latin1_lower one_agent (units ''Adb'') \<and>
   \<not> equal_ignoring_case (units ''Ada'') (units ''Adb'') \<and>
   \<not> agents_nameExists latin1_lower one_agent (units ''Ad'') \<and>
   \<not> equal_ignoring_case (units ''Ada'') (units ''Ad'') \<and>
   map (\<lambda>q. ag_name (snd q))
     (db_agents (db (fst (agents_create as_is ''a2'' ''01'' 2 2 (ada\<lparr>ad_name := units ''ada''\<rparr>)
        one_agent))))
     = [units ''Ada'', units ''ada'']"
proof -
  have fresh: "''a2'' \<notin> set (Object_keys (db_agents (db one_agent)))"
    by code_simp
  have stored: "list_all (\<lambda>a. ascii_string (ag_name a)) (Object_values (db_agents (db one_agent)))"
    by code_simp
  have given: "ascii_string (units ''ADA'')"
    by code_simp
  have code: "agents_nameExists latin1_lower one_agent (units ''ADA'')"
    "\<not> agents_nameExists latin1_lower one_agent (units ''Adb'')"
    "\<not> agents_nameExists latin1_lower one_agent (units ''Ad'')"
    by code_simp+
  have spec: "equal_ignoring_case (units ''Ada'') (units ''ADA'')"
    "\<not> equal_ignoring_case (units ''Ada'') (units ''Adb'')"
    "\<not> equal_ignoring_case (units ''Ada'') (units ''Ad'')"
    by code_simp+
  have before: "map (\<lambda>q. ag_name (snd q)) (db_agents (db one_agent)) = [units ''Ada'']"
    by code_simp
  from agents_create_permissive [OF fresh given stored, of latin1_lower as_is "''01''" 2 2
      "ada\<lparr>ad_name := units ''ada''\<rparr>"]
  have "map (\<lambda>q. ag_name (snd q))
      (db_agents (db (fst (agents_create as_is ''a2'' ''01'' 2 2 (ada\<lparr>ad_name := units ''ada''\<rparr>)
        one_agent))))
      = map (\<lambda>q. ag_name (snd q)) (db_agents (db one_agent)) @ [units ''ada'']"
    by simp
  with code spec before show ?thesis by simp
qed

section \<open>The cascade of projects.delete\<close>

lemma delete_filter: "AList.delete k c = filter (\<lambda>q. fst q \<noteq> k) c"
  by (induction c) auto

lemma step_filter:
  assumes "distinct (map fst c)"
  shows "(case map_of c k of None \<Rightarrow> c
          | Some r \<Rightarrow> if pid r = i then AList.delete k c else c) =
         filter (\<lambda>q. \<not> (fst q = k \<and> pid (snd q) = i)) c"
proof (cases "map_of c k")
  case None
  then have "\<forall>q \<in> set c. fst q \<noteq> k" by (auto simp: map_of_eq_None_iff)
  then have "filter (\<lambda>q. \<not> (fst q = k \<and> pid (snd q) = i)) c = c" by (simp add: filter_id_conv)
  with None show ?thesis by simp
next
  case (Some r)
  have only: "snd q = r" if "q \<in> set c" "fst q = k" for q
  proof -
    from that have "(k, snd q) \<in> set c" by (cases q) auto
    with assms have "map_of c k = Some (snd q)" by (rule map_of_is_SomeI)
    with Some show ?thesis by simp
  qed
  show ?thesis
  proof (cases "pid r = i")
    case True
    have "filter (\<lambda>q. \<not> (fst q = k \<and> pid (snd q) = i)) c = filter (\<lambda>q. fst q \<noteq> k) c"
      by (rule filter_cong) (use only True in auto)
    with Some True show ?thesis by (simp add: delete_filter)
  next
    case False
    have "filter (\<lambda>q. \<not> (fst q = k \<and> pid (snd q) = i)) c = c"
      using only False by (auto simp: filter_id_conv)
    with Some False show ?thesis by simp
  qed
qed

lemma fold_step_filter:
  "distinct (map fst c) \<Longrightarrow>
   fold (\<lambda>k c'. case map_of c' k of None \<Rightarrow> c'
                 | Some r \<Rightarrow> if pid r = i then AList.delete k c' else c') ks c =
   filter (\<lambda>q. \<not> (fst q \<in> set ks \<and> pid (snd q) = i)) c"
proof (induction ks arbitrary: c)
  case Nil
  then show ?case by simp
next
  case (Cons k ks)
  let ?c1 = "filter (\<lambda>q. \<not> (fst q = k \<and> pid (snd q) = i)) c"
  have d1: "distinct (map fst ?c1)" using Cons.prems by (rule distinct_map_filter)
  have "filter (\<lambda>q. \<not> (fst q \<in> set ks \<and> pid (snd q) = i)) ?c1 =
        filter (\<lambda>q. \<not> (fst q \<in> set (k # ks) \<and> pid (snd q) = i)) c"
    by (auto intro: filter_cong)
  with Cons.IH [OF d1] step_filter [OF Cons.prems, of pid i k] show ?case by simp
qed

lemma cascade_filter:
  assumes "distinct (map fst c)"
  shows "cascade pid i c = filter (\<lambda>q. pid (snd q) \<noteq> i) c"
proof -
  have "filter (\<lambda>q. \<not> (fst q \<in> set (map fst c) \<and> pid (snd q) = i)) c =
        filter (\<lambda>q. pid (snd q) \<noteq> i) c"
    by (rule filter_cong) auto
  with fold_step_filter [OF assms, of pid i "map fst c"] show ?thesis
    by (simp add: cascade_def Object_keys_def)
qed

text \<open>
  C2: in a store whose dependent collections have one entry per key (a JavaScript object
  has no other), \<open>projects.delete(i)\<close> leaves the agents alone, removes the project
  stored under \<open>i\<close> and no other project, and removes from the collaborations, the
  updates and the comments exactly the records whose \<open>project_id\<close> is \<open>i\<close>: what is
  left of each collection is the old one without those records, in the old order.
\<close>

theorem projects_delete_cascade:
  assumes "distinct (Object_keys (db_collaborations (db st)))"
    and "distinct (Object_keys (db_updates (db st)))"
    and "distinct (Object_keys (db_comments (db st)))"
  shows "db_agents (db (projects_delete js i st)) = db_agents (db st) \<and>
         db_projects (db (projects_delete js i st)) =
           filter (\<lambda>q. fst q \<noteq> i) (db_projects (db st)) \<and>
         db_collaborations (db (projects_delete js i st)) =
           filter (\<lambda>q. co_project_id (snd q) \<noteq> i) (db_collaborations (db st)) \<and>
         db_updates (db (projects_delete js i st)) =
           filter (\<lambda>q. up_project_id (snd q) \<noteq> i) (db_updates (db st)) \<and>
         db_comments (db (projects_delete js i st)) =
           filter (\<lambda>q. cm_project_id (snd q) \<noteq> i) (db_comments (db st))"
  using assms
  by (simp add: projects_delete_def Let_def save_def Object_keys_def cascade_filter delete_filter)

theorem projects_delete_cascade_witness:
  "Object_keys (db_projects (db (projects_delete as_is ''p1'' two_projects))) = [''p2''] \<and>
   Object_keys (db_collaborations (db (projects_delete as_is ''p1'' two_projects))) = [''c2''] \<and>
   Object_keys (db_updates (db (projects_delete as_is ''p1'' two_projects))) = [''x2''] \<and>
   Object_keys (db_comments (db (projects_delete as_is ''p1'' two_projects))) = [''m2'']"
proof -
  have d: "distinct (Object_keys (db_collaborations (db two_projects)))"
    "distinct (Object_keys (db_updates (db two_projects)))"
    "distinct (Object_keys (db_comments (db two_projects)))"
    by code_simp+
  have "Object_keys (filter (\<lambda>q. fst q \<noteq> ''p1'') (db_projects (db two_projects))) = [''p2'']"
    "Object_keys (filter (\<lambda>q. co_project_id (snd q) \<noteq> ''p1'')
       (db_collaborations (db two_projects))) = [''c2'']"
    "Object_keys (filter (\<lambda>q. up_project_id (snd q) \<noteq> ''p1'') (db_updates (db two_projects))) = [''x2'']"
    "Object_keys (filter (\<lambda>q. cm_project_id (snd q) \<noteq> ''p1'') (db_comments (db two_projects))) = [''m2'']"
    by code_simp+
  with projects_delete_cascade [OF d, of as_is "''p1''"] show ?thesis by simp
qed

section \<open>Sorting and the listings\<close>

lemma mset_insertBy: "mset (insertBy cmp x ys) = add_mset x (mset ys)"
  by (induction ys) auto

lemma mset_sortBy: "mset (sortBy cmp xs) = mset xs"
  unfolding sortBy_def by (induction xs) (auto simp: mset_insertBy)

lemma set_insertBy: "set (insertBy cmp x ys) = insert x (set ys)"
  by (induction ys) auto

lemma sorted_insertBy:
  assumes tot: "\<And>a b. cmp a b \<le> 0 \<or> cmp b a \<le> 0"
    and trans: "\<And>a b c. cmp a b \<le> 0 \<Longrightarrow> cmp b c \<le> 0 \<Longrightarrow> cmp a c \<le> 0"
  shows "sorted_wrt (\<lambda>a b. cmp a b \<le> 0) ys \<Longrightarrow> sorted_wrt (\<lambda>a b. cmp a b \<le> 0) (insertBy cmp x ys)"
proof (induction ys)
  case Nil
  then show ?case by simp
next
  case (Cons y ys)
  show ?case
  proof (cases "cmp x y \<le> 0")
    case True
    then have "\<forall>z \<in> set ys. cmp x z \<le> 0" using Cons.prems trans by auto
    with True Cons.prems show ?thesis by simp
  next
    case False
    then have "cmp y x \<le> 0" using tot [of x y] by simp
    with False Cons show ?thesis by (auto simp: set_insertBy)
  qed
qed

lemma sorted_sortBy:
  assumes tot: "\<And>a b. cmp a b \<le> 0 \<or> cmp b a \<le> 0"
    and trans: "\<And>a b c. cmp a b \<le> 0 \<Longrightarrow> cmp b c \<le> 0 \<Longrightarrow> cmp a c \<le> 0"
  shows "sorted_wrt (\<lambda>a b. cmp a b \<le> 0) (sortBy cmp xs)"
  unfolding sortBy_def
  by (induction xs) (simp_all add: sorted_insertBy [OF tot trans])

lemma sorted_sortBy_desc:
  "sorted_wrt (\<lambda>a b. f b \<le> f a) (sortBy (\<lambda>a b. f b - f a) xs)" for f :: "'a \<Rightarrow> int"
  using sorted_sortBy [of "\<lambda>a b. f b - f a" xs] by fastforce

lemma sorted_sortBy_asc:
  "sorted_wrt (\<lambda>a b. f a \<le> f b) (sortBy (\<lambda>a b. f a - f b) xs)" for f :: "'a \<Rightarrow> int"
  using sorted_sortBy [of "\<lambda>a b. f a - f b" xs] by fastforce

text \<open>
  C7: \<open>updates.findByProject\<close> returns the updates of the project, each as often as it
  is stored, with creation times descending; \<open>comments.findByProject\<close> returns the
  comments of the project with creation times ascending.
\<close>

theorem findByProject_order:
  "mset (updates_findByProject st projectId) =
     mset (filter (\<lambda>u. up_project_id u = projectId) (Object_values (db_updates (db st)))) \<and>
   sorted_wrt (\<lambda>a b. up_created_at b \<le> up_created_at a) (updates_findByProject st projectId) \<and>
   mset (comments_findByProject st projectId) =
     mset (filter (\<lambda>c. cm_project_id c = projectId) (Object_values (db_comments (db st)))) \<and>
   sorted_wrt (\<lambda>a b. cm_created_at a \<le> cm_created_at b) (comments_findByProject st projectId)"
  by (simp add: updates_findByProject_def comments_findByProject_def mset_sortBy
      sorted_sortBy_desc sorted_sortBy_asc)

theorem findByProject_order_witness:
  "map up_id (updates_findByProject three_entries ''p1'') = [''x2'', ''x3'', ''x1''] \<and>
   map cm_id (comments_findByProject three_entries ''p1'') = [''m1'', ''m3'', ''m2''] \<and>
   sorted_wrt (\<lambda>a b. up_created_at b \<le> up_created_at a) (updates_findByProject three_entries ''p1'') \<and>
   sorted_wrt (\<lambda>a b. cm_created_at a \<le> cm_created_at b) (comments_findByProject three_entries ''p1'')"
proof -
  have "map up_id (updates_findByProject three_entries ''p1'') = [''x2'', ''x3'', ''x1'']"
    by code_simp
  moreover have "map cm_id (comments_findByProject three_entries ''p1'') = [''m1'', ''m3'', ''m2'']"
    by code_simp
  ultimately show ?thesis
    using findByProject_order [of three_entries "''p1''"] by simp
qed

subsection \<open>findAll\<close>

lemma join_split_comma: "join_comma (split_comma s) = s \<and> split_comma s \<noteq> []"
proof (induction s)
  case Nil
  show ?case by simp
next
  case (Cons c s)
  then obtain w ws where ws: "split_comma s = w # ws" by (cases "split_comma s") auto
  with Cons show ?case by (cases ws) (auto simp: Let_def)
qed

lemma split_comma_pieces: "w \<in> set (split_comma s) \<Longrightarrow> CHR '','' \<notin> set w"
proof (induction s arbitrary: w)
  case Nil
  then show ?case by simp
next
  case (Cons c s)
  obtain v vs where vs: "split_comma s = v # vs"
    using join_split_comma [of s] by (cases "split_comma s") auto
  with Cons show ?case by (auto simp: Let_def split: if_splits)
qed

lemma sorted_wrt_take: "sorted_wrt R xs \<Longrightarrow> sorted_wrt R (take n xs)"
  by (metis append_take_drop_id sorted_wrt_append)

lemma sorted_slice0: "sorted_wrt R xs \<Longrightarrow> sorted_wrt R (slice0 xs n)"
  by (simp add: slice0_def sorted_wrt_take)

lemma findAll_sorted:
  "sorted_wrt (\<lambda>a b. pr_created_at b \<le> pr_created_at a) (projects_findAll fs st)"
  by (simp add: projects_findAll_def Let_def sorted_sortBy_desc sorted_slice0 split: option.splits)

text \<open>
  C4, as the code has it. With no filter \<open>findAll\<close> returns the projects whose status
  is \<open>seeking\<close> or \<open>in-progress\<close>; with a status string that is not empty (and no
  other filter) it returns the projects whose status is one of the pieces of the string
  between its commas; either way each matching project once, creation times descending.
  The empty status string is falsy and selects the default set.
\<close>

theorem findAll_status_filter:
  assumes "s \<noteq> []"
  shows "mset (projects_findAll no_filters st) =
           mset (filter (\<lambda>p. pr_status p = ''seeking'' \<or> pr_status p = ''in-progress'')
             (Object_values (db_projects (db st)))) \<and>
         mset (projects_findAll (no_filters\<lparr>f_status := Some s\<rparr>) st) =
           mset (filter (\<lambda>p. pr_status p \<in> set (split_comma s))
             (Object_values (db_projects (db st)))) \<and>
         sorted_wrt (\<lambda>a b. pr_created_at b \<le> pr_created_at a) (projects_findAll no_filters st) \<and>
         sorted_wrt (\<lambda>a b. pr_created_at b \<le> pr_created_at a)
           (projects_findAll (no_filters\<lparr>f_status := Some s\<rparr>) st) \<and>
         projects_findAll (no_filters\<lparr>f_status := Some []\<rparr>) st = projects_findAll no_filters st"
  using assms
  by (simp add: findAll_sorted)
    (simp add: projects_findAll_def Let_def no_filters_def truthy_def mset_sortBy)

theorem findAll_status_filter_witness:
  "map pr_id (projects_findAll (no_filters\<lparr>f_status := Some ''completed,abandoned''\<rparr>) three_projects)
     = [''p3'', ''p2''] \<and>
   map pr_id (projects_findAll no_filters three_projects) = [''p1''] \<and>
   sorted_wrt (\<lambda>a b. pr_created_at b \<le> pr_created_at a)
     (projects_findAll (no_filters\<lparr>f_status := Some ''completed,abandoned''\<rparr>) three_projects)"
proof -
  have "map pr_id (projects_findAll (no_filters\<lparr>f_status := Some ''completed,abandoned''\<rparr>)
      three_projects) = [''p3'', ''p2'']"
    by code_simp
  moreover have "map pr_id (projects_findAll no_filters three_projects) = [''p1'']"
    by code_simp
  ultimately show ?thesis
    using findAll_status_filter [of "''completed,abandoned''" three_projects] by simp
qed

text \<open>
  The claim as written fails at the empty status string: \<open>findAll\<close> returns the
  seeking project, whose status is not a piece of the empty string.
\<close>

theorem findAll_status_counterexample:
  "map pr_status (projects_findAll (no_filters\<lparr>f_status := Some []\<rparr>) three_projects) = [''seeking''] \<and>
   split_comma [] = [[]]"
  by code_simp

text \<open>
  C5, as the code has it. A limit \<open>n\<close> above zero (and below \<open>10^21\<close>, where
  \<open>parseInt\<close> of a number is the number) cuts the filtered and sorted sequence down to
  its first \<open>n\<close> elements, which is the whole sequence when it has at most \<open>n\<close>. The
  limit zero is falsy and cuts nothing.
\<close>

theorem findAll_limit:
  assumes "0 < n" and "n < 10 ^ 21"
  shows "projects_findAll (fs\<lparr>f_limit := Some n\<rparr>) st =
           take (nat n) (projects_findAll (fs\<lparr>f_limit := None\<rparr>) st) \<and>
         (if length (projects_findAll (fs\<lparr>f_limit := None\<rparr>) st) \<le> nat n
          then projects_findAll (fs\<lparr>f_limit := Some n\<rparr>) st =
                 projects_findAll (fs\<lparr>f_limit := None\<rparr>) st
          else length (projects_findAll (fs\<lparr>f_limit := Some n\<rparr>) st) = nat n) \<and>
         projects_findAll (fs\<lparr>f_limit := Some 0\<rparr>) st = projects_findAll (fs\<lparr>f_limit := None\<rparr>) st"
proof -
  have "projects_findAll (fs\<lparr>f_limit := Some n\<rparr>) st =
      take (nat n) (projects_findAll (fs\<lparr>f_limit := None\<rparr>) st)"
    using assms(1) by (simp add: projects_findAll_def Let_def slice0_def parseInt_def)
  moreover have "projects_findAll (fs\<lparr>f_limit := Some 0\<rparr>) st =
      projects_findAll (fs\<lparr>f_limit := None\<rparr>) st"
    by (simp add: projects_findAll_def Let_def)
  ultimately show ?thesis by simp
qed

theorem findAll_limit_witness:
  "map pr_id (projects_findAll
      (no_filters\<lparr>f_status := Some ''seeking,completed,abandoned'', f_limit := Some 2\<rparr>) three_projects)
     = [''p3'', ''p2'']"
proof -
  have "map pr_id (take (nat 2) (projects_findAll
      (no_filters\<lparr>f_status := Some ''seeking,completed,abandoned'', f_limit := None\<rparr>) three_projects))
     = [''p3'', ''p2'']"
    by code_simp
  with findAll_limit [of 2 "no_filters\<lparr>f_status := Some ''seeking,completed,abandoned''\<rparr>" three_projects]
  show ?thesis by simp
qed

text \<open>The claim as written fails at the limit zero: nothing is cut off.\<close>

theorem findAll_limit_counterexample:
  "map pr_id (projects_findAll (no_filters\<lparr>f_limit := Some 0\<rparr>) three_projects) = [''p1''] \<and>
   take 0 (projects_findAll (no_filters\<lparr>f_limit := None\<rparr>) three_projects) = []"
  by code_simp

section \<open>The slug of a new project\<close>

lemma table_units: "v \<in> set (Rep_unicode_lower tbl s i) \<Longrightarrow> 128 \<le> v"
  using Rep_unicode_lower [of tbl] by auto

lemma lower_units: "v \<in> set (toLowerCase tbl s) \<Longrightarrow> \<exists>i<length s. v \<in> set (lowerAt tbl s i)"
  by (auto simp: toLowerCase_def)

lemma lowerAt_alnum: "v \<in> set (lowerAt tbl s i) \<Longrightarrow> is_alnum v = isSlugChar v"
proof (cases "s ! i < 128 \<or> s ! i = 304 \<or> s ! i = 8490")
  case True
  assume "v \<in> set (lowerAt tbl s i)"
  with True show ?thesis
    by (auto simp: lowerAt_def Let_def is_alnum_def isSlugChar_def split: if_splits)
next
  case False
  assume "v \<in> set (lowerAt tbl s i)"
  with False have "v \<in> set (Rep_unicode_lower tbl s i)"
    by (auto simp: lowerAt_def Let_def split: if_splits)
  then have "128 \<le> v" by (rule table_units)
  then show ?thesis by (simp add: is_alnum_def isSlugChar_def)
qed

lemma lowerAt_no_slug:
  assumes "\<not> is_alnum (s ! i)" and "s ! i \<noteq> 304" and "s ! i \<noteq> 8490"
    and "v \<in> set (lowerAt tbl s i)"
  shows "\<not> isSlugChar v"
proof (cases "s ! i < 128")
  case True
  with assms show ?thesis
    by (auto simp: lowerAt_def Let_def is_alnum_def isSlugChar_def split: if_splits)
next
  case False
  with assms have "v \<in> set (Rep_unicode_lower tbl s i)"
    by (auto simp: lowerAt_def Let_def split: if_splits)
  then have "128 \<le> v" by (rule table_units)
  then show ?thesis by (simp add: isSlugChar_def)
qed

lemma hyphen_not_slug: "\<not> isSlugChar hyphen"
  by (simp add: isSlugChar_def)

lemma collapse_eq:
  "\<forall>c \<in> set s. is_alnum c = isSlugChar c \<Longrightarrow> spec_collapse s = replaceRuns s"
proof (induction s)
  case Nil
  show ?case by simp
next
  case (Cons c cs)
  then have ih: "spec_collapse cs = replaceRuns cs" and c: "is_alnum c = isSlugChar c" by simp_all
  show ?case
  proof (cases "isSlugChar c")
    case True
    with c ih show ?thesis by simp
  next
    case False
    show ?thesis
    proof (cases cs)
      case Nil
      with c False show ?thesis by simp
    next
      case (Cons d ds)
      with Cons.prems have d: "is_alnum d = isSlugChar d" by simp
      show ?thesis
      proof (cases "isSlugChar d")
        case True
        have "spec_collapse (c # cs) = hyphen # spec_collapse cs"
          using c d False True Cons by simp
        moreover have "replaceRuns (c # cs) = hyphen # replaceRuns cs"
          using False True Cons by simp
        ultimately show ?thesis using ih by simp
      next
        case dF: False
        have "spec_collapse (c # cs) = spec_collapse cs"
          using c d False dF Cons by simp
        moreover have "replaceRuns cs = hyphen # replaceRuns (dropWhile (\<lambda>d. \<not> isSlugChar d) ds)"
          using dF Cons by simp
        moreover have "replaceRuns (c # cs) = hyphen # replaceRuns (dropWhile (\<lambda>d. \<not> isSlugChar d) ds)"
          using False dF Cons by simp
        ultimately show ?thesis using ih by simp
      qed
    qed
  qed
qed

lemma replaceRuns_hyphen_first:
  "replaceRuns t = hyphen # u \<Longrightarrow> t \<noteq> [] \<and> \<not> isSlugChar (hd t)"
  by (cases t) (auto simp: hyphen_not_slug split: if_splits)

lemma no_double_Cons: "a \<noteq> hyphen \<Longrightarrow> no_double (a # r) = no_double r"
  by (cases r) auto

lemma no_double_hyphen: "no_double (hyphen # r) = ((r = [] \<or> hd r \<noteq> hyphen) \<and> no_double r)"
  by (cases r) auto

lemma no_double_replaceRuns: "no_double (replaceRuns s)"
proof (induction s rule: replaceRuns.induct)
  case 1
  show ?case by simp
next
  case (2 c cs)
  show ?case
  proof (cases "isSlugChar c")
    case True
    then have "c \<noteq> hyphen" using hyphen_not_slug by auto
    with 2 True show ?thesis by (simp add: no_double_Cons)
  next
    case False
    let ?t = "dropWhile (\<lambda>d. \<not> isSlugChar d) cs"
    have "replaceRuns ?t = [] \<or> hd (replaceRuns ?t) \<noteq> hyphen"
    proof (cases "replaceRuns ?t")
      case Nil
      then show ?thesis by simp
    next
      case (Cons a u)
      show ?thesis
      proof (rule ccontr)
        assume "\<not> ?thesis"
        with Cons have "replaceRuns ?t = hyphen # u" by simp
        from replaceRuns_hyphen_first [OF this] have "?t \<noteq> []" "\<not> isSlugChar (hd ?t)" by simp_all
        then show False using hd_dropWhile [of "\<lambda>d. \<not> isSlugChar d" cs] by simp
      qed
    qed
    with 2 False show ?thesis by (simp add: no_double_hyphen)
  qed
qed

lemma no_double_last:
  "no_double s \<Longrightarrow> s \<noteq> [] \<Longrightarrow> last s = hyphen \<Longrightarrow>
   butlast s = [] \<or> last (butlast s) \<noteq> hyphen"
  by (induction s rule: no_double.induct) (auto split: if_splits)

lemma no_double_tl: "no_double (a # r) \<Longrightarrow> no_double r"
  by (cases r) auto

lemma strip_eq_trim:
  assumes "no_double r"
  shows "stripEdgeHyphens r = spec_trim r"
proof -
  define s1 where "s1 = (case r of [] \<Rightarrow> [] | c # cs \<Rightarrow> if c = hyphen then cs else c # cs)"
  have front: "dropWhile (\<lambda>c. c = hyphen) r = s1"
  proof (cases r)
    case Nil
    then show ?thesis by (simp add: s1_def)
  next
    case (Cons c cs)
    show ?thesis
    proof (cases "c = hyphen")
      case True
      with assms Cons have "cs = [] \<or> hd cs \<noteq> hyphen" by (simp add: no_double_hyphen)
      then have "dropWhile (\<lambda>c. c = hyphen) cs = cs" by (cases cs) auto
      with True Cons show ?thesis by (simp add: s1_def)
    next
      case False
      with Cons show ?thesis by (simp add: s1_def)
    qed
  qed
  have nd: "no_double s1"
    using assms by (cases r) (auto simp: s1_def dest: no_double_tl)
  have rear: "drop_trailing_hyphens s1 =
      (if s1 \<noteq> [] \<and> last s1 = hyphen then butlast s1 else s1)"
  proof (cases "s1 \<noteq> [] \<and> last s1 = hyphen")
    case True
    with no_double_last [OF nd] have "butlast s1 = [] \<or> last (butlast s1) \<noteq> hyphen" by simp
    then have "drop_trailing_hyphens (butlast s1) = butlast s1"
      by (subst drop_trailing_hyphens.simps) auto
    with True show ?thesis by (subst drop_trailing_hyphens.simps) simp
  next
    case False
    then show ?thesis by (subst drop_trailing_hyphens.simps) auto
  qed
  show ?thesis
    unfolding spec_trim_def front rear
    by (simp add: stripEdgeHyphens_def s1_def Let_def)
qed

lemma slugify_spec: "slugify tbl title = spec_base_slug tbl title"
proof -
  have "\<forall>c \<in> set (toLowerCase tbl title). is_alnum c = isSlugChar c"
    using lower_units lowerAt_alnum by blast
  then have "spec_collapse (toLowerCase tbl title) = replaceRuns (toLowerCase tbl title)"
    by (rule collapse_eq)
  then show ?thesis
    by (simp add: slugify_def spec_base_slug_def strip_eq_trim [OF no_double_replaceRuns])
qed

lemma uniqueSlug_spec: "uniqueSlug st b = spec_first_free (slugs st) b"
  using uniqueSlug_loop_least [of "Object_values (db_projects (db st))" b b 1]
  by (simp add: uniqueSlug_def spec_first_free_def slugs_def)

lemma replaceRuns_no_slug:
  assumes "\<forall>c \<in> set s. \<not> isSlugChar c"
  shows "replaceRuns s = (if s = [] then [] else [hyphen])"
proof (cases s)
  case Nil
  then show ?thesis by simp
next
  case (Cons a list)
  with assms have dw: "dropWhile (\<lambda>d. \<not> isSlugChar d) list = []" by simp
  from assms Cons have "\<not> isSlugChar a" by simp
  with Cons show ?thesis by (simp add: dw)
qed

lemma slugify_no_alnum:
  assumes "\<forall>u \<in> set title. \<not> is_alnum u \<and> u \<noteq> 304 \<and> u \<noteq> 8490"
  shows "slugify tbl title = []"
proof -
  have "\<forall>c \<in> set (toLowerCase tbl title). \<not> isSlugChar c"
  proof
    fix c
    assume "c \<in> set (toLowerCase tbl title)"
    then obtain i where i: "i < length title" "c \<in> set (lowerAt tbl title i)"
      using lower_units by blast
    from i(1) assms have "\<not> is_alnum (title ! i)" "title ! i \<noteq> 304" "title ! i \<noteq> 8490"
      by simp_all
    from lowerAt_no_slug [OF this i(2)] show "\<not> isSlugChar c" .
  qed
  from replaceRuns_no_slug [OF this] show ?thesis
    by (simp add: slugify_def stripEdgeHyphens_def)
qed

lemma first_free_least:
  assumes "b \<in> set taken"
  shows "\<exists>k. 1 \<le> k \<and> spec_first_free taken b = suffixed b k \<and> suffixed b k \<notin> set taken \<and>
             (\<forall>j. 1 \<le> j \<and> j < k \<longrightarrow> suffixed b j \<in> set taken)"
proof -
  let ?P = "\<lambda>k. 1 \<le> k \<and> suffixed b k \<notin> set taken"
  have ex: "\<exists>k. ?P k" using free_suffix_exists [of "set taken" 1 b] by auto
  have "?P (Least ?P)" using ex by (rule LeastI_ex)
  moreover have "suffixed b j \<in> set taken" if "1 \<le> j" "j < Least ?P" for j
    using not_less_Least [OF that(2)] that(1) by simp
  ultimately show ?thesis using assms by (auto simp: spec_first_free_def)
qed

text \<open>
  C3: the slug of the record that \<open>projects.create\<close> returns is the slug the
  specification describes, computed from the title and the slugs the projects have
  before the call; and no project has it before the call.
\<close>

theorem projects_create_slug:
  "pr_slug (snd (projects_create tbl js uid t1 t2 data st)) =
     spec_first_free (slugs st) (spec_base_slug tbl (pd_title data)) \<and>
   pr_slug (snd (projects_create tbl js uid t1 t2 data st)) \<notin> set (slugs st)"
  using uniqueSlug_fresh [of st "slugify tbl (pd_title data)"]
  by (simp add: projects_create_def Let_def uniqueSlug_spec slugify_spec)

theorem projects_create_slug_witness:
  "pr_slug (snd (projects_create latin1_lower as_is ''p1'' 1 1 (titled ''Self-Balancing Robot'')
      (initial_store :: document store))) = units ''self-balancing-robot'' \<and>
   pr_slug (snd (projects_create latin1_lower as_is ''p2'' 2 2 (titled ''Self-Balancing Robot'')
      robot_project)) = units ''self-balancing-robot-1'' \<and>
   pr_slug (snd (projects_create latin1_lower as_is ''p2'' 2 2 (titled ''Self-Balancing Robot'')
      robot_project)) \<notin> set (slugs robot_project)"
proof (intro conjI)
  show "pr_slug (snd (projects_create latin1_lower as_is ''p1'' 1 1 (titled ''Self-Balancing Robot'')
      (initial_store :: document store))) = units ''self-balancing-robot''"
    by code_simp
  show "pr_slug (snd (projects_create latin1_lower as_is ''p2'' 2 2
      (titled ''Self-Balancing Robot'') robot_project)) = units ''self-balancing-robot-1''"
    by code_simp
  show "pr_slug (snd (projects_create latin1_lower as_is ''p2'' 2 2 (titled ''Self-Balancing Robot'')
      robot_project)) \<notin> set (slugs robot_project)"
    using projects_create_slug [of latin1_lower as_is "''p2''" 2 2
        "titled ''Self-Balancing Robot''" robot_project]
    by (rule conjunct2)
qed

text \<open>
  C9, as the code has it. The lowercase form of \<open>U+0130\<close> and of the Kelvin sign
  \<open>U+212A\<close> contains an ASCII letter, so a title with one of them has a base slug that
  is not empty. A title without any ASCII letter or digit and without these two units
  has the empty base slug, whatever the tables of the runtime are. The project created
  from it gets the empty slug when no project has the empty slug yet, and the slug
  \<open>-k\<close> when the empty slug and \<open>-1\<close> .. \<open>-(k-1)\<close> are taken and \<open>-k\<close> is not.
\<close>

theorem no_alnum_title_slug:
  assumes "\<forall>u \<in> set (pd_title data). \<not> is_alnum u \<and> u \<noteq> 304 \<and> u \<noteq> 8490"
  shows "slugify tbl (pd_title data) = [] \<and>
         ([] \<notin> set (slugs st) \<longrightarrow>
            pr_slug (snd (projects_create tbl js uid t1 t2 data st)) = []) \<and>
         ([] \<in> set (slugs st) \<and> 1 \<le> k \<and>
            (\<forall>j. 1 \<le> j \<and> j < k \<longrightarrow> hyphen # decimal j \<in> set (slugs st)) \<and>
            hyphen # decimal k \<notin> set (slugs st)
          \<longrightarrow> pr_slug (snd (projects_create tbl js uid t1 t2 data st)) = hyphen # decimal k)"
proof -
  have base: "slugify tbl (pd_title data) = []" using assms by (rule slugify_no_alnum)
  have slug: "pr_slug (snd (projects_create tbl js uid t1 t2 data st)) =
      spec_first_free (slugs st) []"
    by (simp add: projects_create_def Let_def base uniqueSlug_spec)
  have first: "spec_first_free (slugs st) [] = []" if "[] \<notin> set (slugs st)"
    using that by (simp add: spec_first_free_def)
  have later: "spec_first_free (slugs st) [] = hyphen # decimal k"
    if "[] \<in> set (slugs st)" "1 \<le> k"
      "\<forall>j. 1 \<le> j \<and> j < k \<longrightarrow> hyphen # decimal j \<in> set (slugs st)"
      "hyphen # decimal k \<notin> set (slugs st)"
  proof -
    have "(LEAST n. 1 \<le> n \<and> suffixed [] n \<notin> set (slugs st)) = k"
    proof (rule Least_equality)
      show "1 \<le> k \<and> suffixed [] k \<notin> set (slugs st)" using that by (simp add: suffixed_def)
    next
      fix y
      assume y: "1 \<le> y \<and> suffixed [] y \<notin> set (slugs st)"
      show "k \<le> y"
      proof (rule ccontr)
        assume "\<not> k \<le> y"
        with y that(3) have "hyphen # decimal y \<in> set (slugs st)" by simp
        with y show False by (simp add: suffixed_def)
      qed
    qed
    with that(1) show ?thesis by (simp add: spec_first_free_def suffixed_def)
  qed
  from base slug first later show ?thesis by simp
qed

theorem no_alnum_title_slug_witness:
  "slugify latin1_lower (units ''...'') = [] \<and>
   slugify latin1_lower [233, 8364] = [] \<and>
   pr_slug (snd (projects_create latin1_lower as_is ''p1'' 1 1 (titled ''!!!'')
     (initial_store :: document store))) = [] \<and>
   slugs punctuation_projects = [[], units ''-1''] \<and>
   pr_slug (snd (projects_create latin1_lower as_is ''p3'' 3 3 (titled ''...'')
     punctuation_projects)) = units ''-2''"
proof -
  have t: "\<forall>u \<in> set (pd_title (titled ''...'')). \<not> is_alnum u \<and> u \<noteq> 304 \<and> u \<noteq> 8490"
    "\<forall>u \<in> set (pd_title (titled ''!!!'')). \<not> is_alnum u \<and> u \<noteq> 304 \<and> u \<noteq> 8490"
    "\<forall>u \<in> set (pd_title ((titled [])\<lparr>pd_title := [233, 8364]\<rparr>)).
       \<not> is_alnum u \<and> u \<noteq> 304 \<and> u \<noteq> 8490"
    by (simp_all add: titled_def units_def is_alnum_def)
  have s: "slugs punctuation_projects = [[], units ''-1'']"
    by code_simp
  have d: "hyphen # decimal (Suc 0) = units ''-1''" "hyphen # decimal 2 = units ''-2''"
    by code_simp+
  have none: "[] \<notin> set (slugs (initial_store :: document store))"
    by (simp add: slugs_def initial_store_def empty_document_def Object_values_def)
  have taken: "\<forall>j. 1 \<le> j \<and> j < (2::nat) \<longrightarrow> hyphen # decimal j \<in> set (slugs punctuation_projects)"
  proof (intro allI impI)
    fix j :: nat
    assume "1 \<le> j \<and> j < 2"
    then have "j = 1" by simp
    then show "hyphen # decimal j \<in> set (slugs punctuation_projects)" by (simp add: s d)
  qed
  have free: "hyphen # decimal 2 \<notin> set (slugs punctuation_projects)"
    unfolding s d by code_simp
  from no_alnum_title_slug [OF t(2), of latin1_lower "initial_store :: document store" as_is
      "''p1''" 1 1 1] none
  have first: "pr_slug (snd (projects_create latin1_lower as_is ''p1'' 1 1 (titled ''!!!'')
     (initial_store :: document store))) = []"
    by simp
  from no_alnum_title_slug [OF t(3), of latin1_lower "initial_store :: document store" as_is
      "''p1''" 1 1 1]
  have beyond: "slugify latin1_lower [233, 8364] = []"
    by simp
  from no_alnum_title_slug [OF t(1), of latin1_lower punctuation_projects as_is "''p3''" 3 3 2]
    taken free
  have "slugify latin1_lower (units ''...'') = []"
    and "pr_slug (snd (projects_create latin1_lower as_is ''p3'' 3 3 (titled ''...'')
      punctuation_projects)) = units ''-2''"
    by (simp_all add: s d titled_def)
  with first beyond s show ?thesis by simp
qed

text \<open>
  The claim as written fails at the Kelvin sign and at the capital I with dot: neither
  is an ASCII letter or digit, and the slugs are \<open>k\<close> and \<open>i\<close>.
\<close>

theorem no_alnum_title_slug_counterexample:
  "is_alnum 8490 = False \<and> is_alnum 304 = False \<and>
   slugify latin1_lower [8490] = units ''k'' \<and>
   slugify latin1_lower [304] = units ''i'' \<and>
   pr_slug (snd (projects_create latin1_lower as_is ''p1'' 1 1 kelvin
     (initial_store :: document store))) = units ''k''"
  by code_simp

section \<open>Unique keys\<close>

lemma cascade_keys: "distinct (map fst c) \<Longrightarrow> distinct (map fst (cascade pid i c))"
  by (simp add: cascade_filter distinct_map_filter)

lemma apply_op_unique_keys:
  assumes "unique_keys (db st)"
  shows "unique_keys (db (apply_op tbl js op st))"
proof (cases op)
  case (AgentsCreate uid hex t1 t2 data)
  with assms show ?thesis
    by (simp add: unique_keys_def Object_keys_def agents_create_def Let_def save_def distinct_update)
next
  case (AgentsUpdate t i data)
  with assms show ?thesis
    by (simp add: unique_keys_def Object_keys_def agents_update_def Let_def save_def distinct_update
        split: option.splits)
next
  case (ProjectsCreate uid t1 t2 data)
  with assms show ?thesis
    by (simp add: unique_keys_def Object_keys_def projects_create_def Let_def save_def distinct_update)
next
  case (ProjectsUpdate t i data)
  with assms show ?thesis
    by (simp add: unique_keys_def Object_keys_def projects_update_def Let_def save_def distinct_update
        split: option.splits)
next
  case (ProjectsDelete i)
  with assms show ?thesis
    by (simp add: unique_keys_def Object_keys_def projects_delete_def Let_def save_def
        distinct_delete cascade_keys)
next
  case (CollaborationsCreate uid t data)
  with assms show ?thesis
    by (simp add: unique_keys_def Object_keys_def collaborations_create_def Let_def save_def
        distinct_update)
next
  case (CollaborationsUpdate i data)
  with assms show ?thesis
    by (simp add: unique_keys_def Object_keys_def collaborations_update_def Let_def save_def
        distinct_update split: option.splits)
next
  case (CollaborationsDelete projectId agentId)
  with assms show ?thesis
    by (simp add: unique_keys_def Object_keys_def collaborations_delete_def save_def
        distinct_delete split: option.splits)
next
  case (UpdatesCreate uid t data)
  with assms show ?thesis
    by (simp add: unique_keys_def Object_keys_def updates_create_def Let_def save_def distinct_update)
next
  case (CommentsCreate uid t data)
  with assms show ?thesis
    by (simp add: unique_keys_def Object_keys_def comments_create_def Let_def save_def distinct_update)
qed

lemma run_unique_keys: "unique_keys (db st) \<Longrightarrow> unique_keys (db (run tbl js ops st))"
  unfolding run_def by (induction ops arbitrary: st) (simp_all add: apply_op_unique_keys)

lemma reachable_unique_keys: "unique_keys (db (run tbl js ops initial_store))"
  by (rule run_unique_keys)
    (simp add: unique_keys_def initial_store_def empty_document_def Object_keys_def)

section \<open>Persistence\<close>

lemma save_load: "\<forall>d. parse (js d) = Some d \<Longrightarrow> db (load parse (disk (save js st))) = db st"
  by (simp add: load_def save_def)

text \<open>
  C6: \<open>JSON.stringify\<close> and \<open>JSON.parse\<close> are the runtime's; the theorem takes them
  as a serialiser \<open>js\<close> and a parser \<open>parse\<close> that return every document they are
  given, which JSON does for the values the records hold (strings, \<open>null\<close>, numbers and
  arrays of strings). Every \<open>create\<close> writes the whole document after it has stored
  the new record, so a store started from the file holds, under the new identifier, the
  record that \<open>create\<close> returned, equal in every field.
\<close>

theorem create_save_reload:
  assumes "\<forall>d. parse (js d) = Some d"
  shows "agents_findById (load parse (disk (fst (agents_create js uid hex t1 t2 a st)))) uid =
           Some (snd (agents_create js uid hex t1 t2 a st)) \<and>
         projects_findById (load parse (disk (fst (projects_create tbl js uid t1 t2 p st)))) uid =
           Some (snd (projects_create tbl js uid t1 t2 p st)) \<and>
         map_of (db_collaborations (db (load parse (disk (fst (collaborations_create js uid t1 c st))))))
           uid = Some (snd (collaborations_create js uid t1 c st)) \<and>
         map_of (db_updates (db (load parse (disk (fst (updates_create js uid t1 e st)))))) uid =
           Some (snd (updates_create js uid t1 e st)) \<and>
         map_of (db_comments (db (load parse (disk (fst (comments_create js uid t1 e st)))))) uid =
           Some (snd (comments_create js uid t1 e st))"
  using assms
  by (simp add: agents_findById_def projects_findById_def agents_create_def projects_create_def
      collaborations_create_def updates_create_def comments_create_def Let_def load_def save_def
      update_conv')

theorem create_save_reload_witness:
  "projects_findById (load Some (disk (fst (projects_create latin1_lower as_is ''p1'' 1 2
      (titled ''Robot'') initial_store)))) ''p1'' =
   Some \<lparr>pr_id = ''p1'', pr_slug = units ''robot'', pr_title = units ''Robot'',
     pr_description = None, pr_category = ''other'', pr_status = ''seeking'',
     pr_skills_needed = [], pr_max_collaborators = None, pr_creator_id = ''ada'',
     pr_created_at = 1, pr_updated_at = 2\<rparr>"
proof -
  have "snd (projects_create latin1_lower as_is ''p1'' 1 2 (titled ''Robot'')
      (initial_store :: document store)) =
    \<lparr>pr_id = ''p1'', pr_slug = units ''robot'', pr_title = units ''Robot'',
     pr_description = None, pr_category = ''other'', pr_status = ''seeking'',
     pr_skills_needed = [], pr_max_collaborators = None, pr_creator_id = ''ada'',
     pr_created_at = 1, pr_updated_at = 2\<rparr>"
    by code_simp
  with create_save_reload [where parse = Some and js = as_is and tbl = latin1_lower
      and uid = "''p1''" and ?t1.0 = 1 and ?t2.0 = 2 and st = initial_store
      and p = "titled ''Robot''"]
  show ?thesis by (simp add: as_is_def)
qed

end
